theory Spec2Isabelle
  imports Complex_Main "HOL-Library.AList" "HOL-Library.Sublist"
begin

section \<open>Python values, configurations and exceptions\<close>

text \<open>
  Configurations are JSON-like Python values. A Python \<open>dict\<close> with string keys is an
  association list; lookup is \<open>map_of\<close>, \<open>d[k] = v\<close> is \<open>AList.update\<close> and
  \<open>d.pop(k, None)\<close> is \<open>AList.delete\<close>. \<open>copy.deepcopy\<close> is the identity on values
  that are never aliased.
\<close>

datatype pyval =
    PNone
  | PBool bool
  | PInt int
  | PStr string
  | PList "pyval list"
  | PDict "(string \<times> pyval) list"

type_synonym dict = "(string \<times> pyval) list"

text \<open>Python truth value of a configuration value (\<open>if x:\<close>).\<close>

fun truthy :: "pyval \<Rightarrow> bool" where
  "truthy PNone = False"
| "truthy (PBool b) = b"
| "truthy (PInt n) = (n \<noteq> 0)"
| "truthy (PStr s) = (s \<noteq> [])"
| "truthy (PList xs) = (xs \<noteq> [])"
| "truthy (PDict d) = (d \<noteq> [])"

text \<open>Lists and dicts cannot be used as dictionary keys.\<close>

fun hashable :: "pyval \<Rightarrow> bool" where
  "hashable (PList xs) = False"
| "hashable (PDict d) = False"
| "hashable v = True"

text \<open>\<open>d.get(k)\<close>: a missing key reads as \<open>None\<close>.\<close>

definition dict_get :: "dict \<Rightarrow> string \<Rightarrow> pyval" where
  "dict_get d k = (case map_of d k of None \<Rightarrow> PNone | Some v \<Rightarrow> v)"

text \<open>
  Exceptions raised by code outside the two source files (operator constructors and
  bodies, translation unit methods, shared resource constructors).
\<close>

datatype op_exn = NotImplementedError | OpTypeError | OpRaised string

text \<open>
  Every \<open>raise\<close> of the two source files is a constructor; the formatted message is
  kept only where a property depends on it (\<open>WorkerFailure\<close>).
\<close>

datatype exn =
    MissingOpField pyval
  | UnknownOperator pyval
  | AmbiguousOverrides pyval pyval
  | OptionsNotAccepted pyval
  | AttributeError
  | TypeError
  | KeyError string
  | External op_exn
  | WorkerFailure string exn

text \<open>
  An override label. The loader's metadata carries nothing, a string, a list of
  strings or (unexpectedly) a mapping; \<open>_get_corpus_label\<close> turns a non-empty string or
  list into a Python set, whose elements the model keeps in iteration order.
\<close>

datatype label =
    LNone
  | LStr string
  | LList "string list"
  | LSet "string list"
  | LDict dict

fun label_truthy :: "label \<Rightarrow> bool" where
  "label_truthy LNone = False"
| "label_truthy (LStr s) = (s \<noteq> [])"
| "label_truthy (LList xs) = (xs \<noteq> [])"
| "label_truthy (LSet xs) = (xs \<noteq> [])"
| "label_truthy (LDict d) = (d \<noteq> [])"

text \<open>\<open>for label in override_label\<close>: a string iterates over its characters, a dict over its keys.\<close>

fun label_iter :: "label \<Rightarrow> string list" where
  "label_iter LNone = []"
| "label_iter (LStr s) = map (\<lambda>c. [c]) s"
| "label_iter (LList xs) = xs"
| "label_iter (LSet xs) = xs"
| "label_iter (LDict d) = map fst d"

section \<open>Operator resolution (prepoperator.py)\<close>

text \<open>
  Modelled from the spec: \<open>merge_config\<close> of \<open>nmtwizard.config\<close>, which is not among the
  source files. The spec describes it as a deep merge of the override over the base
  parameters: the override wins on scalar conflicts, and the merge recurses into nested
  mappings.
\<close>

fun merge_config :: "dict \<Rightarrow> dict \<Rightarrow> dict" where
  "merge_config a [] = a"
| "merge_config a ((k, PDict bv) # b) =
     (case map_of a k of
        Some (PDict av) \<Rightarrow> merge_config (AList.update k (PDict (merge_config av bv)) a) b
      | _ \<Rightarrow> merge_config (AList.update k (PDict bv) a) b)"
| "merge_config a ((k, v) # b) = merge_config (AList.update k v a) b"

text \<open>\<open>label in override_config\<close> for each iterated label, keeping the matching ones.\<close>

fun py_contains :: "pyval \<Rightarrow> string \<Rightarrow> exn + bool" where
  "py_contains (PDict d) s = Inr (map_of d s \<noteq> None)"
| "py_contains (PList xs) s = Inr (PStr s \<in> set xs)"
| "py_contains (PStr t) s = Inr (sublist s t)"
| "py_contains v s = Inl TypeError"

fun matching_labels :: "string list \<Rightarrow> pyval \<Rightarrow> exn + string list" where
  "matching_labels [] oc = Inr []"
| "matching_labels (l # ls) oc =
     (case py_contains oc l of
        Inl e \<Rightarrow> Inl e
      | Inr b \<Rightarrow>
          (case matching_labels ls oc of
             Inl e \<Rightarrow> Inl e
           | Inr ms \<Rightarrow> Inr (if b then l # ms else ms)))"

text \<open>\<open>get_operator_type\<close>: \<open>config.get("op")\<close>, a \<open>ValueError\<close> when it is \<open>None\<close>.\<close>

fun get_operator_type :: "pyval \<Rightarrow> exn + pyval" where
  "get_operator_type (PDict d) =
     (case dict_get d ''op'' of PNone \<Rightarrow> Inl (MissingOpField (PDict d)) | v \<Rightarrow> Inr v)"
| "get_operator_type v = Inl AttributeError"

text \<open>
  \<open>get_operator_params\<close>. The entry is a dict here, since \<open>get_operator_type\<close> has read it.
  An override that is not a mapping cannot be merged.
\<close>

definition get_operator_params :: "dict \<Rightarrow> pyval \<Rightarrow> label \<Rightarrow> exn + dict" where
  "get_operator_params config operator_type override_label =
     (let config1 = AList.delete ''op'' config;
          override_config = dict_get config1 ''overrides'';
          config2 = AList.delete ''overrides'' config1
      in if label_truthy override_label \<and> truthy override_config then
           (case matching_labels (label_iter override_label) override_config of
              Inl e \<Rightarrow> Inl e
            | Inr override \<Rightarrow>
                if length override > 1 then
                  Inl (AmbiguousOverrides override_config operator_type)
                else if length override = 1 then
                  (case override_config of
                     PDict oc \<Rightarrow>
                       (case map_of oc (hd override) of
                          Some (PDict ov) \<Rightarrow> Inr (merge_config config2 ov)
                        | Some v \<Rightarrow> Inl AttributeError
                        | None \<Rightarrow> Inl (KeyError (hd override)))
                   | v \<Rightarrow> Inl TypeError)
                else Inr config2)
         else Inr config2)"

text \<open>\<open>enumerate(config)\<close> iterates a list over its elements, a dict over its keys, a string over its characters.\<close>

fun py_iter :: "pyval \<Rightarrow> exn + pyval list" where
  "py_iter (PList xs) = Inr xs"
| "py_iter (PDict d) = Inr (map (\<lambda>kv. PStr (fst kv)) d)"
| "py_iter (PStr s) = Inr (map (\<lambda>c. PStr [c]) s)"
| "py_iter v = Inl TypeError"

datatype ProcessType = TRAINING | INFERENCE | POSTPROCESS

text \<open>
  The build state: the dict \<open>start_state\<close> / \<open>build_state\<close> of \<open>Pipeline\<close>, with its five keys.
  A tokenizer is an object of type \<open>'tok\<close>.
\<close>

record 'tok build_state =
  src_tokenizer :: "'tok option"
  tgt_tokenizer :: "'tok option"
  postprocess_only :: bool
  src_vocabulary :: pyval
  tgt_vocabulary :: pyval

text \<open>
  Batch metadata: the keys the two source files read or write. \<open>filter_summary\<close> is a
  \<open>defaultdict(int)\<close> and \<open>ops_profile\<close> a \<open>defaultdict(float)\<close>, keyed by operator name;
  times are real numbers (floating point rounding is not modelled).
\<close>

record batch_meta =
  meta_label :: label
  base_name :: "string option"
  filter_summary :: "(pyval \<times> int) list option"
  ops_profile :: "(pyval \<times> real) list option"

type_synonym 'tu tu_batch = "'tu list \<times> batch_meta"

text \<open>
  A bound operator. \<open>op_name\<close> and \<open>op_process_type\<close> are the attributes \<open>_name\<close> and
  \<open>_process_type\<close> that \<open>build_operator\<close> sets; \<open>op_body\<close> is the instance's \<open>__call__\<close>,
  which reads both. The keyword argument \<open>options\<close> is \<open>None\<close> when no keyword argument is passed.
  Operator bodies are taken not to change the instance.
\<close>

record 'tu operator =
  op_name :: pyval
  op_process_type :: ProcessType
  op_accept_options :: bool
  op_body :: "pyval \<Rightarrow> ProcessType \<Rightarrow> pyval option \<Rightarrow> 'tu tu_batch \<Rightarrow> op_exn + 'tu tu_batch"

definition operator_call :: "'tu operator \<Rightarrow> pyval option \<Rightarrow> 'tu tu_batch \<Rightarrow> op_exn + 'tu tu_batch" where
  "operator_call op kwargs tu_batch = op_body op (op_name op) (op_process_type op) kwargs tu_batch"

text \<open>A class whose instances are shared across workers: its \<open>__name__\<close> and its constructor.\<close>

record shared_cls =
  cls_name :: string
  cls_new :: "pyval list \<Rightarrow> op_exn option"

text \<open>
  An operator class: the static methods of \<open>Operator\<close> and the constructor, which may
  change the build state, may raise, and receives the shared objects of its index
  (name to reference) when there are any.
\<close>

record ('tu, 'tok) operator_cls =
  is_applied_for :: "ProcessType \<Rightarrow> bool"
  accept_options :: bool
  get_shared_classes :: "shared_cls list option"
  get_shared_builders :: "dict \<Rightarrow> ProcessType \<Rightarrow> (string \<times> shared_cls \<times> pyval list) list option"
  init :: "dict \<Rightarrow> ProcessType \<Rightarrow> 'tok build_state \<Rightarrow> (string \<times> nat) list option \<Rightarrow>
           op_exn + ((pyval \<Rightarrow> ProcessType \<Rightarrow> pyval option \<Rightarrow> 'tu tu_batch \<Rightarrow> op_exn + 'tu tu_batch)
                     \<times> 'tok build_state)"

text \<open>\<open>_OPERATORS_REGISTRY\<close>, keyed by the registered names.\<close>

type_synonym ('tu, 'tok) registry = "string \<Rightarrow> ('tu, 'tok) operator_cls option"

fun get_operator_class :: "('tu, 'tok) registry \<Rightarrow> pyval \<Rightarrow> exn + ('tu, 'tok) operator_cls" where
  "get_operator_class reg (PStr s) =
     (case reg s of None \<Rightarrow> Inl (UnknownOperator (PStr s)) | Some operator_cls \<Rightarrow> Inr operator_cls)"
| "get_operator_class reg (PList xs) = Inl TypeError"
| "get_operator_class reg (PDict d) = Inl TypeError"
| "get_operator_class reg v = Inl (UnknownOperator v)"

text \<open>
  One iteration of the loop of \<open>operator_info_generator\<close>, after the exit step test:
  \<open>None\<close> is \<open>continue\<close>. A class is only found for a string, which is what the yielded
  type is.
\<close>

definition operator_info ::
  "('tu, 'tok) registry \<Rightarrow> ProcessType \<Rightarrow> label \<Rightarrow> bool \<Rightarrow> nat \<Rightarrow> pyval \<Rightarrow>
   exn + (('tu, 'tok) operator_cls \<times> dict \<times> string \<times> nat) option" where
  "operator_info reg process_type override_label ignore_disabled i operator_config =
     (case get_operator_type operator_config of
        Inl e \<Rightarrow> Inl e
      | Inr operator_type \<Rightarrow>
          (case get_operator_class reg operator_type of
             Inl e \<Rightarrow> Inl e
           | Inr operator_cls \<Rightarrow>
               if \<not> is_applied_for operator_cls process_type then Inr None
               else
                 (case (operator_config, operator_type) of
                    (PDict d, PStr t) \<Rightarrow>
                      (case get_operator_params d operator_type override_label of
                         Inl e \<Rightarrow> Inl e
                       | Inr operator_params \<Rightarrow>
                           if ignore_disabled \<and>
                              truthy (case map_of operator_params ''disabled'' of
                                        None \<Rightarrow> PBool False | Some v \<Rightarrow> v)
                           then Inr None
                           else Inr (Some (operator_cls, operator_params, t, i)))
                  | _ \<Rightarrow> Inl AttributeError)))"

fun operator_info_generator ::
  "('tu, 'tok) registry \<Rightarrow> ProcessType \<Rightarrow> label \<Rightarrow> int option \<Rightarrow> bool \<Rightarrow> (nat \<times> pyval) list \<Rightarrow>
   exn + (('tu, 'tok) operator_cls \<times> dict \<times> string \<times> nat) list" where
  "operator_info_generator reg process_type override_label preprocess_exit_step ignore_disabled [] = Inr []"
| "operator_info_generator reg process_type override_label preprocess_exit_step ignore_disabled
     ((i, operator_config) # rest) =
     (if (case preprocess_exit_step of None \<Rightarrow> False | Some n \<Rightarrow> int i > n) then Inr []
      else
        (case operator_info reg process_type override_label ignore_disabled i operator_config of
           Inl e \<Rightarrow> Inl e
         | Inr None \<Rightarrow>
             operator_info_generator reg process_type override_label preprocess_exit_step
               ignore_disabled rest
         | Inr (Some info) \<Rightarrow>
             (case operator_info_generator reg process_type override_label preprocess_exit_step
                     ignore_disabled rest of
                Inl e \<Rightarrow> Inl e
              | Inr infos \<Rightarrow> Inr (info # infos))))"

text \<open>\<open>_add_lang_info\<close>; the right-hand side \<open>config[side]\<close> is evaluated first.\<close>

definition add_lang_info :: "dict \<Rightarrow> dict \<Rightarrow> string \<Rightarrow> exn + dict" where
  "add_lang_info operator_params config side =
     (case map_of config side of
        None \<Rightarrow> Inl (KeyError side)
      | Some lang \<Rightarrow>
          (case dict_get operator_params side of
             PNone \<Rightarrow> Inr (AList.update (side @ ''_lang'') lang operator_params)
           | PDict side_params \<Rightarrow>
               Inr (AList.update side (PDict (AList.update ''lang'' lang side_params)) operator_params)
           | v \<Rightarrow> Inl TypeError))"

text \<open>\<open>"%d" % index\<close>: the decimal digits of a natural number.\<close>

definition digit_char :: "nat \<Rightarrow> char" where
  "digit_char d = ''0123456789'' ! d"

fun show_nat :: "nat \<Rightarrow> string" where
  "show_nat n = (if n < 10 then [digit_char n] else show_nat (n div 10) @ [digit_char (n mod 10)])"

definition build_operator ::
  "string \<Rightarrow> ('tu, 'tok) operator_cls \<Rightarrow> dict \<Rightarrow> dict \<Rightarrow> ProcessType \<Rightarrow> 'tok build_state \<Rightarrow> nat \<Rightarrow>
   (string \<times> nat) list option \<Rightarrow> exn + ('tu operator \<times> 'tok build_state)" where
  "build_operator operator_type operator_cls operator_params global_config process_type
     build_state index shared_state =
     (case add_lang_info operator_params global_config ''source'' of
        Inl e \<Rightarrow> Inl e
      | Inr params1 \<Rightarrow>
          (case add_lang_info params1 global_config ''target'' of
             Inl e \<Rightarrow> Inl e
           | Inr params2 \<Rightarrow>
               (let args = (case shared_state of Some (x # xs) \<Rightarrow> Some (x # xs) | _ \<Rightarrow> None);
                    name = (case map_of params2 ''name'' of
                              Some v \<Rightarrow> v
                            | None \<Rightarrow> PStr (operator_type @ ''_'' @ show_nat index));
                    params3 = AList.delete ''name'' params2
                in case init operator_cls params3 process_type build_state args of
                     Inl e \<Rightarrow> Inl (External e)
                   | Inr (body, build_state') \<Rightarrow>
                       Inr (\<lparr>op_name = name, op_process_type = process_type,
                             op_accept_options = accept_options operator_cls, op_body = body\<rparr>,
                            build_state'))))"

section \<open>The pipeline (prepoperator.py)\<close>

record ('tu, 'tok) pipeline =
  p_process_type :: ProcessType
  p_override_label :: label
  p_start_state :: "'tok build_state"
  p_build_state :: "'tok build_state"
  p_ops :: "'tu operator list"
  p_config :: dict

text \<open>\<open>x.get(k, default)\<close> on a configuration value: an \<open>AttributeError\<close> unless \<open>x\<close> is a dict.\<close>

fun py_get_default :: "pyval \<Rightarrow> string \<Rightarrow> pyval \<Rightarrow> exn + pyval" where
  "py_get_default (PDict d) k dflt = Inr (case map_of d k of None \<Rightarrow> dflt | Some v \<Rightarrow> v)"
| "py_get_default v k dflt = Inl AttributeError"

text \<open>\<open>config.get("vocabulary", {}).get(side, {}).get("path")\<close>.\<close>

definition vocabulary_path :: "dict \<Rightarrow> string \<Rightarrow> exn + pyval" where
  "vocabulary_path config side =
     (case py_get_default (PDict config) ''vocabulary'' (PDict []) of
        Inl e \<Rightarrow> Inl e
      | Inr vocabulary \<Rightarrow>
          (case py_get_default vocabulary side (PDict []) of
             Inl e \<Rightarrow> Inl e
           | Inr side_vocabulary \<Rightarrow> py_get_default side_vocabulary ''path'' PNone))"

text \<open>
  The loop of \<open>_add_op_list\<close> over the enumerated entries: each yielded operator is built
  and appended to \<open>_ops\<close> before the generator resumes, so an error of a later entry comes
  after the constructors of the earlier ones. \<open>shared_state.get(i) if shared_state else None\<close>.
\<close>

fun add_op_entries ::
  "('tu, 'tok) registry \<Rightarrow> dict \<Rightarrow> ProcessType \<Rightarrow> label \<Rightarrow> int option \<Rightarrow>
   (nat \<times> (string \<times> nat) list) list option \<Rightarrow> (nat \<times> pyval) list \<Rightarrow>
   'tu operator list \<times> 'tok build_state \<Rightarrow> exn + ('tu operator list \<times> 'tok build_state)" where
  "add_op_entries reg config process_type override_label exit_step shared_state [] (ops, build_state) =
     Inr (ops, build_state)"
| "add_op_entries reg config process_type override_label exit_step shared_state
     ((i, operator_config) # rest) (ops, build_state) =
     (if (case exit_step of None \<Rightarrow> False | Some n \<Rightarrow> int i > n) then Inr (ops, build_state)
      else
        (case operator_info reg process_type override_label True i operator_config of
           Inl e \<Rightarrow> Inl e
         | Inr None \<Rightarrow>
             add_op_entries reg config process_type override_label exit_step shared_state rest
               (ops, build_state)
         | Inr (Some (operator_cls, operator_params, operator_type, j)) \<Rightarrow>
             (case build_operator operator_type operator_cls operator_params config process_type
                     build_state j
                     (case shared_state of Some (x # xs) \<Rightarrow> map_of (x # xs) j | _ \<Rightarrow> None) of
                Inl e \<Rightarrow> Inl e
              | Inr (operator, build_state') \<Rightarrow>
                  add_op_entries reg config process_type override_label exit_step shared_state rest
                    (ops @ [operator], build_state'))))"

definition add_op_list ::
  "('tu, 'tok) registry \<Rightarrow> ('tu, 'tok) pipeline \<Rightarrow> pyval \<Rightarrow> int option \<Rightarrow>
   (nat \<times> (string \<times> nat) list) list option \<Rightarrow> exn + ('tu, 'tok) pipeline" where
  "add_op_list reg self op_list_config exit_step shared_state =
     (case py_iter op_list_config of
        Inl e \<Rightarrow> Inl e
      | Inr entries \<Rightarrow>
          (case add_op_entries reg (p_config self) (p_process_type self) (p_override_label self)
                  exit_step shared_state (List.enumerate 0 entries) (p_ops self, p_build_state self) of
             Inl e \<Rightarrow> Inl e
           | Inr (ops, build_state) \<Rightarrow> Inr (self\<lparr>p_ops := ops, p_build_state := build_state\<rparr>)))"

text \<open>\<open>Pipeline._build_pipeline\<close>.\<close>

definition build_pipeline ::
  "('tu, 'tok) registry \<Rightarrow> ('tu, 'tok) pipeline \<Rightarrow> dict \<Rightarrow> int option \<Rightarrow>
   (nat \<times> (string \<times> nat) list) list option \<Rightarrow> exn + ('tu, 'tok) pipeline" where
  "build_pipeline reg self config preprocess_exit_step shared_state =
     (let self1 = self\<lparr>p_ops := [], p_config := config\<rparr>;
          preprocess_config = dict_get config ''preprocess''
      in case (if truthy preprocess_config
               then add_op_list reg self1 preprocess_config preprocess_exit_step shared_state
               else Inr self1) of
           Inl e \<Rightarrow> Inl e
         | Inr self2 \<Rightarrow>
             if p_process_type self2 = POSTPROCESS then
               (let self3 = self2\<lparr>p_ops := rev (p_ops self2)\<rparr>;
                    self4 = self3\<lparr>p_start_state := p_build_state self3,
                                  p_build_state := p_start_state self3\<rparr>;
                    self5 = self4\<lparr>p_build_state := (p_build_state self4)\<lparr>postprocess_only := True\<rparr>\<rparr>;
                    postprocess_config = dict_get config ''postprocess''
                in if truthy postprocess_config
                   then add_op_list reg self5 postprocess_config None None
                   else Inr self5)
             else Inr self2)"

text \<open>The dict \<open>start_state\<close> that \<open>Pipeline.__init__\<close> builds, key by key.\<close>

definition initial_state :: "dict \<Rightarrow> exn + 'tok build_state" where
  "initial_state config =
     (case vocabulary_path config ''source'' of
        Inl e \<Rightarrow> Inl e
      | Inr src \<Rightarrow>
          (case vocabulary_path config ''target'' of
             Inl e \<Rightarrow> Inl e
           | Inr tgt \<Rightarrow>
               Inr \<lparr>src_tokenizer = None, tgt_tokenizer = None, postprocess_only = False,
                    src_vocabulary = src, tgt_vocabulary = tgt\<rparr>))"

text \<open>\<open>Pipeline.__init__\<close>; \<open>build_state\<close> starts as a copy of \<open>start_state\<close>.\<close>

definition Pipeline ::
  "('tu, 'tok) registry \<Rightarrow> dict \<Rightarrow> ProcessType \<Rightarrow> int option \<Rightarrow> label \<Rightarrow>
   (nat \<times> (string \<times> nat) list) list option \<Rightarrow> exn + ('tu, 'tok) pipeline" where
  "Pipeline reg config process_type preprocess_exit_step override_label shared_state =
     (case initial_state config of
        Inl e \<Rightarrow> Inl e
      | Inr start_state \<Rightarrow>
          build_pipeline reg
            \<lparr>p_process_type = process_type, p_override_label = override_label,
             p_start_state = start_state, p_build_state = start_state,
             p_ops = [], p_config = config\<rparr>
            config preprocess_exit_step shared_state)"

text \<open>
  \<open>options.get(op.name) if options else None\<close>, for options keyed by strings. A stored
  \<open>None\<close> reads like a missing key.
\<close>

definition op_options_of :: "dict option \<Rightarrow> pyval \<Rightarrow> exn + pyval option" where
  "op_options_of options name =
     (case options of
        None \<Rightarrow> Inr None
      | Some [] \<Rightarrow> Inr None
      | Some d \<Rightarrow>
          if \<not> hashable name then Inl TypeError
          else (case name of
                  PStr s \<Rightarrow> (case map_of d s of
                               None \<Rightarrow> Inr None
                             | Some PNone \<Rightarrow> Inr None
                             | Some v \<Rightarrow> Inr (Some v))
                | _ \<Rightarrow> Inr None))"

text \<open>\<open>d[k] += x\<close> on a \<open>defaultdict\<close> whose default is zero.\<close>

definition defaultdict_add :: "('k \<times> 'v::{zero,plus}) list \<Rightarrow> 'k \<Rightarrow> 'v \<Rightarrow> ('k \<times> 'v) list" where
  "defaultdict_add d k x = AList.update k ((case map_of d k of None \<Rightarrow> 0 | Some y \<Rightarrow> y) + x) d"

text \<open>
  The loop over \<open>self._ops\<close> of \<open>Pipeline.__call__\<close>. \<open>clock n\<close> is what the \<open>n\<close>-th call of
  \<open>time.time()\<close> returns; \<open>ops_profile\<close> is \<open>None\<close> outside training.
\<close>

fun apply_ops ::
  "(nat \<Rightarrow> real) \<Rightarrow> dict option \<Rightarrow> 'tu operator list \<Rightarrow> nat \<Rightarrow> (pyval \<times> real) list option \<Rightarrow>
   'tu tu_batch \<Rightarrow> exn + ('tu tu_batch \<times> (pyval \<times> real) list option)" where
  "apply_ops clock options [] n profile tu_batch = Inr (tu_batch, profile)"
| "apply_ops clock options (op # ops) n profile tu_batch =
     (case op_options_of options (op_name op) of
        Inl e \<Rightarrow> Inl e
      | Inr op_options \<Rightarrow>
          if op_options \<noteq> None \<and> \<not> op_accept_options op then Inl (OptionsNotAccepted (op_name op))
          else
            (case operator_call op op_options tu_batch of
               Inl e \<Rightarrow> Inl (External e)
             | Inr tu_batch' \<Rightarrow>
                 (case profile of
                    None \<Rightarrow> apply_ops clock options ops n None tu_batch'
                  | Some prof \<Rightarrow>
                      if \<not> hashable (op_name op) then Inl TypeError
                      else apply_ops clock options ops (n + 2)
                             (Some (defaultdict_add prof (op_name op) (clock (n + 1) - clock n)))
                             tu_batch')))"

text \<open>\<open>for tu in tu_list: tu.finalize(process_type)\<close>, and every other loop that calls a method on each unit.\<close>

fun for_each :: "('a \<Rightarrow> 'e + 'b) \<Rightarrow> 'a list \<Rightarrow> 'e + 'b list" where
  "for_each f [] = Inr []"
| "for_each f (x # xs) =
     (case f x of
        Inl e \<Rightarrow> Inl e
      | Inr y \<Rightarrow> (case for_each f xs of Inl e \<Rightarrow> Inl e | Inr ys \<Rightarrow> Inr (y # ys)))"

text \<open>\<open>Pipeline.__call__\<close>; \<open>finalize\<close> is \<open>TranslationUnit.finalize\<close>.\<close>

definition Pipeline_call ::
  "(ProcessType \<Rightarrow> 'tu \<Rightarrow> op_exn + 'tu) \<Rightarrow> (nat \<Rightarrow> real) \<Rightarrow> ('tu, 'tok) pipeline \<Rightarrow> 'tu tu_batch \<Rightarrow>
   dict option \<Rightarrow> exn + 'tu tu_batch" where
  "Pipeline_call finalize clock self tu_batch options =
     (case apply_ops clock options (p_ops self) 0
             (if p_process_type self = TRAINING then Some [] else None) tu_batch of
        Inl e \<Rightarrow> Inl e
      | Inr ((tu_list, batch_meta), profile) \<Rightarrow>
          (let batch_meta' = (case profile of
                                None \<Rightarrow> batch_meta
                              | Some prof \<Rightarrow> batch_meta\<lparr>ops_profile := Some prof\<rparr>)
           in case for_each (finalize (p_process_type self)) tu_list of
                Inl e \<Rightarrow> Inl (External e)
              | Inr tu_list' \<Rightarrow> Inr (tu_list', batch_meta')))"

section \<open>Operator base classes and the filter (prepoperator.py)\<close>

text \<open>\<open>Operator.__call__\<close>: the reverse transform in postprocess, the forward one otherwise.\<close>

definition Operator_call ::
  "ProcessType \<Rightarrow> ('b \<Rightarrow> op_exn + 'b) \<Rightarrow> ('b \<Rightarrow> op_exn + 'b) \<Rightarrow> 'b \<Rightarrow> op_exn + 'b" where
  "Operator_call process_type preprocess postprocess tu_batch =
     (if process_type = POSTPROCESS then postprocess tu_batch else preprocess tu_batch)"

text \<open>\<open>TUOperator._preprocess\<close> chains what \<open>_preprocess_tu\<close> yields for each unit.\<close>

definition TUOperator_preprocess ::
  "('tu \<Rightarrow> batch_meta \<Rightarrow> op_exn + 'tu list) \<Rightarrow> 'tu tu_batch \<Rightarrow> op_exn + 'tu tu_batch" where
  "TUOperator_preprocess preprocess_tu tu_batch =
     (case tu_batch of (tu_list, meta_batch) \<Rightarrow>
        (case for_each (\<lambda>tu. preprocess_tu tu meta_batch) tu_list of
           Inl e \<Rightarrow> Inl e
         | Inr yielded \<Rightarrow> Inr (concat yielded, meta_batch)))"

definition TUOperator_postprocess ::
  "('tu \<Rightarrow> op_exn + 'tu) \<Rightarrow> 'tu tu_batch \<Rightarrow> op_exn + 'tu tu_batch" where
  "TUOperator_postprocess postprocess_tu tu_batch =
     (case tu_batch of (tu_list, meta_batch) \<Rightarrow>
        (case for_each postprocess_tu tu_list of
           Inl e \<Rightarrow> Inl e
         | Inr tu_list' \<Rightarrow> Inr (tu_list', meta_batch)))"

text \<open>\<open>Filter._preprocess_tu\<close>: the unit is dropped at the first criterion that holds.\<close>

fun Filter_preprocess_tu :: "('tu \<Rightarrow> bool) list \<Rightarrow> 'tu \<Rightarrow> 'tu list" where
  "Filter_preprocess_tu [] tu = [tu]"
| "Filter_preprocess_tu (c # criteria) tu = (if c tu then [] else Filter_preprocess_tu criteria tu)"

text \<open>
  \<open>Filter.__call__\<close>. \<open>Filter\<close> does not override \<open>_postprocess_tu\<close>, which raises
  \<open>NotImplementedError\<close>. A name that is not hashable cannot key \<open>filter_summary\<close>.
\<close>

definition Filter_call ::
  "pyval \<Rightarrow> ProcessType \<Rightarrow> ('tu \<Rightarrow> bool) list \<Rightarrow> 'tu tu_batch \<Rightarrow> op_exn + 'tu tu_batch" where
  "Filter_call name process_type criteria tu_batch =
     (let before = length (fst tu_batch)
      in case Operator_call process_type
                (TUOperator_preprocess (\<lambda>tu meta_batch. Inr (Filter_preprocess_tu criteria tu)))
                (TUOperator_postprocess (\<lambda>tu. Inl NotImplementedError)) tu_batch of
           Inl e \<Rightarrow> Inl e
         | Inr (tu_list, batch_meta) \<Rightarrow>
             (let after = length tu_list;
                  summary = (case filter_summary batch_meta of None \<Rightarrow> [] | Some d \<Rightarrow> d)
              in if \<not> hashable name then Inl OpTypeError
                 else Inr (tu_list,
                           batch_meta\<lparr>filter_summary :=
                             Some (defaultdict_add summary name (int before - int after))\<rparr>)))"

text \<open>
  A filter class as the registry holds it: \<open>criteria_of\<close> stands for the subclass constructor,
  which turns the parameters into the criteria. \<open>Filter.__call__\<close> takes no keyword argument.
\<close>

definition Filter_cls :: "(dict \<Rightarrow> ('tu \<Rightarrow> bool) list) \<Rightarrow> ('tu, 'tok) operator_cls" where
  "Filter_cls criteria_of =
     \<lparr>is_applied_for = (\<lambda>process_type. process_type = TRAINING),
      accept_options = False,
      get_shared_classes = None,
      get_shared_builders = (\<lambda>config process_type. None),
      init = (\<lambda>params process_type build_state shared.
                Inr (\<lambda>name process_type kwargs tu_batch.
                       (case kwargs of
                          None \<Rightarrow> Filter_call name process_type (criteria_of params) tu_batch
                        | Some v \<Rightarrow> Inl OpTypeError),
                     build_state))\<rparr>"

section \<open>Processing one batch (preprocess.py)\<close>

text \<open>
  What the two source files take from their collaborators: the operator registry, the
  methods \<open>finalize\<close> and \<open>export\<close> of a translation unit, and Python's \<open>repr\<close> of a label and
  \<open>str\<close> of a tuple of constructor arguments.
\<close>

record ('tu, 'tok, 'out) externals =
  registry :: "('tu, 'tok) registry"
  tu_finalize :: "ProcessType \<Rightarrow> 'tu \<Rightarrow> op_exn + 'tu"
  tu_export :: "ProcessType \<Rightarrow> 'tu \<Rightarrow> op_exn + 'out"
  repr_label :: "label \<Rightarrow> string"
  str_args :: "pyval list \<Rightarrow> string"

text \<open>
  \<open>_get_corpus_label\<close>. The set built from a list holds its elements once; the order of the
  model's list stands for the iteration order of the Python set.
\<close>

definition get_corpus_label :: "'tu tu_batch \<Rightarrow> label" where
  "get_corpus_label tu_batch =
     (case meta_label (snd tu_batch) of
        LStr s \<Rightarrow> if s \<noteq> [] then LSet [s] else LStr s
      | LList xs \<Rightarrow> if xs \<noteq> [] then LSet (remdups xs) else LList xs
      | l \<Rightarrow> l)"

definition get_corpus_name :: "'tu tu_batch \<Rightarrow> string option" where
  "get_corpus_name tu_batch = base_name (snd tu_batch)"

text \<open>
  Python's \<open>==\<close> on configuration values: \<open>True\<close> and \<open>False\<close> equal \<open>1\<close> and \<open>0\<close>, lists are
  compared element by element, and two dicts are equal when they have the same keys with equal
  values, in whatever order the keys stand.
\<close>

fun py_eq :: "pyval \<Rightarrow> pyval \<Rightarrow> bool" where
  "py_eq PNone PNone = True"
| "py_eq (PBool a) (PBool b) = (a = b)"
| "py_eq (PBool a) (PInt b) = (b = (if a then 1 else 0))"
| "py_eq (PInt a) (PBool b) = (a = (if b then 1 else 0))"
| "py_eq (PInt a) (PInt b) = (a = b)"
| "py_eq (PStr a) (PStr b) = (a = b)"
| "py_eq (PList xs) (PList ys) = list_all2 py_eq xs ys"
| "py_eq (PDict a) (PDict b) =
     (length a = length b \<and>
      list_all (\<lambda>kv. case map_of b (fst kv) of None \<Rightarrow> False | Some v \<Rightarrow> py_eq (snd kv) v) a)"
| "py_eq v w = False"

text \<open>
  Python's \<open>==\<close> on labels (\<open>override_label != pipeline.override_label\<close>): two sets are equal
  when they have the same elements, two mappings as dicts are; values of different types differ.
\<close>

fun label_eq :: "label \<Rightarrow> label \<Rightarrow> bool" where
  "label_eq (LSet xs) (LSet ys) = (set xs = set ys)"
| "label_eq (LDict a) (LDict b) = py_eq (PDict a) (PDict b)"
| "label_eq l l' = (l = l')"

text \<open>\<open>_process_batch\<close>: the pipeline is rebuilt when there is none or its label differs.\<close>

definition process_batch ::
  "('tu, 'tok, 'out) externals \<Rightarrow> (nat \<Rightarrow> real) \<Rightarrow> ('tu, 'tok) pipeline option \<Rightarrow> 'tu tu_batch \<Rightarrow>
   dict option \<Rightarrow> dict \<Rightarrow> ProcessType \<Rightarrow> int option \<Rightarrow> label \<Rightarrow>
   (nat \<times> (string \<times> nat) list) list option \<Rightarrow>
   exn + (('out list \<times> batch_meta) \<times> ('tu, 'tok) pipeline)" where
  "process_batch ext clock pipeline tu_batch options config process_type exit_step
     override_label shared_state =
     (case (case pipeline of
              None \<Rightarrow> Pipeline (registry ext) config process_type exit_step override_label shared_state
            | Some p \<Rightarrow>
                if \<not> label_eq override_label (p_override_label p)
                then Pipeline (registry ext) config process_type exit_step override_label shared_state
                else Inr p) of
        Inl e \<Rightarrow> Inl e
      | Inr pipeline' \<Rightarrow>
          (case Pipeline_call (tu_finalize ext) clock pipeline' tu_batch options of
             Inl e \<Rightarrow> Inl e
           | Inr (tu_list, batch_meta) \<Rightarrow>
               (case for_each (tu_export ext (p_process_type pipeline')) tu_list of
                  Inl e \<Rightarrow> Inl (External e)
                | Inr outputs \<Rightarrow> Inr ((outputs, batch_meta), pipeline'))))"

text \<open>The message of the \<open>RuntimeError\<close> that \<open>_process_batch_on_worker\<close> raises.\<close>

definition worker_message :: "string option \<Rightarrow> string \<Rightarrow> string" where
  "worker_message corpus_name worker_name =
     ''An exception occured '' @
     (case corpus_name of
        None \<Rightarrow> []
      | Some s \<Rightarrow> if s = [] then [] else ''when processing file '' @ [CHR 0x27] @ s @ [CHR 0x27] @ '' '') @
     ''in worker process '' @ worker_name @ '' (see above)''"

text \<open>
  \<open>_process_batch_on_worker\<close>, in the worker process named \<open>worker_name\<close> whose global
  \<open>worker_pipeline\<close> is the first component of the state; the global is assigned only when
  \<open>_process_batch\<close> returns.
\<close>

definition process_batch_on_worker ::
  "('tu, 'tok, 'out) externals \<Rightarrow> (nat \<Rightarrow> real) \<Rightarrow> string \<Rightarrow> ('tu, 'tok) pipeline option \<Rightarrow>
   'tu tu_batch \<Rightarrow> dict option \<Rightarrow> dict \<Rightarrow> ProcessType \<Rightarrow> int option \<Rightarrow> label \<Rightarrow>
   (nat \<times> (string \<times> nat) list) list option \<Rightarrow>
   (exn + ('out list \<times> batch_meta)) \<times> ('tu, 'tok) pipeline option" where
  "process_batch_on_worker ext clock worker_name worker_pipeline tu_batch options config
     process_type exit_step override_label shared_state =
     (case process_batch ext clock worker_pipeline tu_batch options config process_type exit_step
             override_label shared_state of
        Inl e \<Rightarrow>
          (Inl (WorkerFailure (worker_message (get_corpus_name tu_batch) worker_name) e),
           worker_pipeline)
      | Inr (outputs, pipeline') \<Rightarrow> (Inr outputs, Some pipeline'))"

section \<open>The shared state (preprocess.py)\<close>

text \<open>
  Objects are told apart by their reference, the index at which they were allocated in the
  heap: a shared instance (class name, constructor arguments, and whether the manager hosts
  it), or a mapping from operator index to the named instances of that operator, which is
  what \<open>SharedState.get\<close> returns.
\<close>

datatype shared_obj =
    Instance string "pyval list" bool
  | StateDict "(nat \<times> (string \<times> nat) list) list"

text \<open>
  A \<open>SharedState\<close> object. \<open>ss_manager\<close> is \<open>None\<close> until the manager is started and then holds
  the class names registered with it.
\<close>

record shared_state =
  ss_all_state :: "(nat \<times> (string \<times> nat) list) list"
  ss_cached_state :: "(string \<times> nat) list"
  ss_config :: dict
  ss_process_type :: ProcessType
  ss_preprocess_exit_step :: "int option"
  ss_num_workers :: nat
  ss_manager :: "string list option"
  ss_heap :: "shared_obj list"

text \<open>Lines 510 to 524: on the first build with workers, register the shared classes and start the manager.\<close>

definition start_manager ::
  "('tu, 'tok, 'out) externals \<Rightarrow> shared_state \<Rightarrow> pyval \<Rightarrow> label \<Rightarrow> exn + shared_state" where
  "start_manager ext self preprocess_config override_label =
     (if ss_num_workers self > 0 \<and> ss_manager self = None then
        (case py_iter preprocess_config of
           Inl e \<Rightarrow> Inl e
         | Inr entries \<Rightarrow>
             (case operator_info_generator (registry ext) (ss_process_type self) override_label
                     (ss_preprocess_exit_step self) False (List.enumerate 0 entries) of
                Inl e \<Rightarrow> Inl e
              | Inr infos \<Rightarrow>
                  Inr (self\<lparr>ss_manager :=
                         Some (concat (map (\<lambda>info.
                                 (case get_shared_classes (fst info) of
                                    None \<Rightarrow> []
                                  | Some classes \<Rightarrow> map cls_name classes)) infos))\<rparr>)))
      else Inr self)"

text \<open>Lines 526 to 535: the builders of every operator that declares some.\<close>

definition all_builders_of ::
  "('tu, 'tok, 'out) externals \<Rightarrow> shared_state \<Rightarrow> pyval \<Rightarrow> label \<Rightarrow>
   exn + (nat \<times> (string \<times> shared_cls \<times> pyval list) list) list" where
  "all_builders_of ext self preprocess_config override_label =
     (case py_iter preprocess_config of
        Inl e \<Rightarrow> Inl e
      | Inr entries \<Rightarrow>
          (case operator_info_generator (registry ext) (ss_process_type self) override_label
                  (ss_preprocess_exit_step self) True (List.enumerate 0 entries) of
             Inl e \<Rightarrow> Inl e
           | Inr infos \<Rightarrow>
               Inr (concat (map (\<lambda>(operator_cls, operator_params, operator_type, i).
                      (case get_shared_builders operator_cls operator_params (ss_process_type self) of
                         Some (b # bs) \<Rightarrow> [(i, b # bs)]
                       | _ \<Rightarrow> [])) infos))))"

text \<open>
  Lines 542 to 553: the instance of class \<open>cls\<close> built with \<open>args\<close> for operator \<open>i\<close>. It is
  built, by the manager when there is one, only if its key is not yet in \<open>_all_state[i]\<close>.
\<close>

definition shared_instance ::
  "('tu, 'tok, 'out) externals \<Rightarrow> shared_state \<Rightarrow> nat \<Rightarrow> shared_cls \<Rightarrow> pyval list \<Rightarrow>
   exn + (nat \<times> shared_state)" where
  "shared_instance ext self i cls args =
     (let existing_state = (case map_of (ss_all_state self) i of None \<Rightarrow> [] | Some d \<Rightarrow> d);
          key = cls_name cls @ ''_'' @ str_args ext args
      in case map_of existing_state key of
           Some r \<Rightarrow> Inr (r, self)
         | None \<Rightarrow>
             if (case ss_manager self of None \<Rightarrow> False | Some names \<Rightarrow> cls_name cls \<notin> set names)
             then Inl AttributeError
             else
               (case cls_new cls args of
                  Some e \<Rightarrow> Inl (External e)
                | None \<Rightarrow>
                    (let r = length (ss_heap self)
                     in Inr (r, self\<lparr>ss_heap := ss_heap self @
                                         [Instance (cls_name cls) args (ss_manager self \<noteq> None)],
                                      ss_all_state := AList.update i (AList.update key r existing_state)
                                                        (ss_all_state self)\<rparr>))))"

text \<open>The inner loop over the builders of operator \<open>i\<close>, filling \<open>shared_state[i]\<close>.\<close>

fun build_instances ::
  "('tu, 'tok, 'out) externals \<Rightarrow> nat \<Rightarrow> (string \<times> shared_cls \<times> pyval list) list \<Rightarrow>
   shared_state \<times> (string \<times> nat) list \<Rightarrow> exn + (shared_state \<times> (string \<times> nat) list)" where
  "build_instances ext i [] (self, entry) = Inr (self, entry)"
| "build_instances ext i ((name, cls, args) # rest) (self, entry) =
     (case shared_instance ext self i cls args of
        Inl e \<Rightarrow> Inl e
      | Inr (r, self') \<Rightarrow> build_instances ext i rest (self', AList.update name r entry))"

text \<open>The outer loop over \<open>all_builders\<close>.\<close>

fun build_shared ::
  "('tu, 'tok, 'out) externals \<Rightarrow> (nat \<times> (string \<times> shared_cls \<times> pyval list) list) list \<Rightarrow>
   shared_state \<times> (nat \<times> (string \<times> nat) list) list \<Rightarrow>
   exn + (shared_state \<times> (nat \<times> (string \<times> nat) list) list)" where
  "build_shared ext [] (self, state) = Inr (self, state)"
| "build_shared ext ((i, builders) # rest) (self, state) =
     (case build_instances ext i builders
             (self, case map_of state i of None \<Rightarrow> [] | Some entry \<Rightarrow> entry) of
        Inl e \<Rightarrow> Inl e
      | Inr (self', entry) \<Rightarrow> build_shared ext rest (self', AList.update i entry state))"

text \<open>
  \<open>SharedState.get\<close>. The result is \<open>None\<close> or the reference of a mapping; \<open>return {}\<close>
  allocates a new empty mapping.
\<close>

definition SharedState_get ::
  "('tu, 'tok, 'out) externals \<Rightarrow> shared_state \<Rightarrow> label \<Rightarrow> exn + (nat option \<times> shared_state)" where
  "SharedState_get ext self override_label =
     (case override_label of
        LDict d \<Rightarrow> Inr (None, self)
      | _ \<Rightarrow>
          (let override_label_str = repr_label ext override_label
           in case map_of (ss_cached_state self) override_label_str of
                Some cached_state \<Rightarrow> Inr (Some cached_state, self)
              | None \<Rightarrow>
                  (let preprocess_config = dict_get (ss_config self) ''preprocess''
                   in if \<not> truthy preprocess_config then
                        Inr (Some (length (ss_heap self)),
                             self\<lparr>ss_heap := ss_heap self @ [StateDict []]\<rparr>)
                      else
                        (case start_manager ext self preprocess_config override_label of
                           Inl e \<Rightarrow> Inl e
                         | Inr self1 \<Rightarrow>
                             (case all_builders_of ext self1 preprocess_config override_label of
                                Inl e \<Rightarrow> Inl e
                              | Inr all_builders \<Rightarrow>
                                  (case build_shared ext all_builders (self1, []) of
                                     Inl e \<Rightarrow> Inl e
                                   | Inr (self2, state) \<Rightarrow>
                                       (let r = length (ss_heap self2)
                                        in Inr (Some r,
                                                self2\<lparr>ss_heap := ss_heap self2 @ [StateDict state],
                                                       ss_cached_state :=
                                                         AList.update override_label_str r
                                                           (ss_cached_state self2)\<rparr>))))))))"

text \<open>\<open>SharedState.__init__\<close>, which caches the default shared state.\<close>

definition SharedState ::
  "('tu, 'tok, 'out) externals \<Rightarrow> dict \<Rightarrow> ProcessType \<Rightarrow> int option \<Rightarrow> nat \<Rightarrow> exn + shared_state" where
  "SharedState ext config process_type preprocess_exit_step num_workers =
     (case SharedState_get ext
             \<lparr>ss_all_state = [], ss_cached_state = [], ss_config = config,
              ss_process_type = process_type, ss_preprocess_exit_step = preprocess_exit_step,
              ss_num_workers = num_workers, ss_manager = None, ss_heap = []\<rparr> LNone of
        Inl e \<Rightarrow> Inl e
      | Inr (r, self) \<Rightarrow> Inr self)"

text \<open>The mapping a reference returned by \<open>SharedState.get\<close> stands for.\<close>

definition state_of :: "shared_state \<Rightarrow> nat option \<Rightarrow> (nat \<times> (string \<times> nat) list) list option" where
  "state_of self r =
     (case r of
        None \<Rightarrow> None
      | Some a \<Rightarrow>
          if a < length (ss_heap self)
          then (case ss_heap self ! a of StateDict d \<Rightarrow> Some d | _ \<Rightarrow> None)
          else None)"

section \<open>The processor (preprocess.py)\<close>

text \<open>
  What a parallel run does not determine: the answer of each call of \<open>ready()\<close> that does
  not follow a \<open>wait()\<close> on the same result, the worker that takes each task and its process
  name, and the clock readings during each task. Every task is taken to complete, so that
  \<open>wait()\<close> and \<open>get()\<close> return.
\<close>

record scheduling =
  ready_now :: "nat \<Rightarrow> bool"
  worker_of :: "nat \<Rightarrow> nat"
  worker_name :: "nat \<Rightarrow> string"
  clock_of :: "nat \<Rightarrow> nat \<Rightarrow> real"

text \<open>A \<open>Processor\<close>: its worker count, configuration and pipeline type.\<close>

record processor =
  num_workers :: nat
  proc_config :: dict
  pipeline_type :: ProcessType

text \<open>
  The state of the parallel branch of \<open>Processor.process\<close>: the shared state, the global
  \<open>worker_pipeline\<close> of each worker, the deque \<open>results\<close> (each handle with the result its task
  ends with), what the consumer has been called with, and the number of \<open>ready()\<close> calls made.
  Two history fields record the run: every handle in submission order, and the length of
  \<open>results\<close> after each \<open>append\<close> and each \<open>popleft\<close>.
\<close>

record ('tu, 'tok, 'out) run_state =
  rs_shared :: shared_state
  rs_workers :: "nat \<Rightarrow> ('tu, 'tok) pipeline option"
  rs_results :: "(exn + ('out list \<times> batch_meta)) list"
  rs_consumed :: "('out list \<times> batch_meta) list"
  rs_polls :: nat
  rs_submitted :: "(exn + ('out list \<times> batch_meta)) list"
  rs_outstanding :: "nat list"

text \<open>
  Lines 181 to 198: the label, the shared state for it, and the task pushed to the pool.
  A worker runs its tasks in submission order, so the result of the \<open>k\<close>-th task is that of
  \<open>_process_batch_on_worker\<close> on the worker's current pipeline.
\<close>

definition submit ::
  "('tu, 'tok, 'out) externals \<Rightarrow> scheduling \<Rightarrow> processor \<Rightarrow> int option \<Rightarrow> dict option \<Rightarrow> nat \<Rightarrow>
   'tu tu_batch \<Rightarrow> ('tu, 'tok, 'out) run_state \<Rightarrow> exn + ('tu, 'tok, 'out) run_state" where
  "submit ext sched self preprocess_exit_step options k tu_batch rs =
     (let override_label = get_corpus_label tu_batch
      in case SharedState_get ext (rs_shared rs) override_label of
           Inl e \<Rightarrow> Inl e
         | Inr (r, shared') \<Rightarrow>
             (let w = worker_of sched k;
                  (result, worker_pipeline') =
                    process_batch_on_worker ext (clock_of sched k) (worker_name sched w)
                      (rs_workers rs w) tu_batch options (proc_config self) (pipeline_type self)
                      preprocess_exit_step override_label (state_of shared' r)
              in Inr (rs\<lparr>rs_shared := shared',
                         rs_workers := (rs_workers rs)(w := worker_pipeline'),
                         rs_results := rs_results rs @ [result],
                         rs_submitted := rs_submitted rs @ [result],
                         rs_outstanding := rs_outstanding rs @ [Suc (length (rs_results rs))]\<rparr>)))"

text \<open>
  Lines 205 and 206: \<open>while len(results) > 0 and results[0].ready(): consumer(results.popleft().get())\<close>.
  \<open>waited\<close> holds when \<open>results[0].wait()\<close> has just returned, so that the head is ready.
  \<open>get()\<close> raises the exception of a failed task.
\<close>

fun drain_ready ::
  "(nat \<Rightarrow> bool) \<Rightarrow> bool \<Rightarrow> nat \<Rightarrow> (exn + 'r) list \<Rightarrow> 'r list \<Rightarrow> nat list \<Rightarrow>
   (nat \<times> (exn + 'r) list \<times> 'r list \<times> nat list) \<times> exn option" where
  "drain_ready ready waited n [] consumed lens = ((n, [], consumed, lens), None)"
| "drain_ready ready waited n (r # results) consumed lens =
     (if waited \<or> ready n then
        (case r of
           Inl e \<Rightarrow> ((Suc n, results, consumed, lens @ [length results]), Some e)
         | Inr outputs \<Rightarrow>
             drain_ready ready False (Suc n) results (consumed @ [outputs]) (lens @ [length results]))
      else ((Suc n, r # results, consumed, lens), None))"

text \<open>Lines 209 and 210: \<open>while len(results) > 0: consumer(results.popleft().get())\<close>.\<close>

fun drain_all ::
  "(exn + 'r) list \<Rightarrow> 'r list \<Rightarrow> nat list \<Rightarrow> ((exn + 'r) list \<times> 'r list \<times> nat list) \<times> exn option" where
  "drain_all [] consumed lens = (([], consumed, lens), None)"
| "drain_all (r # results) consumed lens =
     (case r of
        Inl e \<Rightarrow> ((results, consumed, lens @ [length results]), Some e)
      | Inr outputs \<Rightarrow> drain_all results (consumed @ [outputs]) (lens @ [length results]))"

text \<open>The loop over the loader's batches, lines 180 to 206; \<open>k\<close> counts the batches.\<close>

fun submit_batches ::
  "('tu, 'tok, 'out) externals \<Rightarrow> scheduling \<Rightarrow> processor \<Rightarrow> int option \<Rightarrow> dict option \<Rightarrow> nat \<Rightarrow>
   'tu tu_batch list \<Rightarrow> ('tu, 'tok, 'out) run_state \<Rightarrow> ('tu, 'tok, 'out) run_state \<times> exn option" where
  "submit_batches ext sched self preprocess_exit_step options k [] rs = (rs, None)"
| "submit_batches ext sched self preprocess_exit_step options k (tu_batch # batches) rs =
     (case submit ext sched self preprocess_exit_step options k tu_batch rs of
        Inl e \<Rightarrow> (rs, Some e)
      | Inr rs1 \<Rightarrow>
          (case drain_ready (ready_now sched) (length (rs_results rs1) = 2 * num_workers self)
                  (rs_polls rs1) (rs_results rs1) (rs_consumed rs1) (rs_outstanding rs1) of
             ((n, results, consumed, lens), failure) \<Rightarrow>
               (let rs2 = rs1\<lparr>rs_results := results, rs_consumed := consumed, rs_polls := n,
                              rs_outstanding := lens\<rparr>
                in case failure of
                     Some e \<Rightarrow> (rs2, Some e)
                   | None \<Rightarrow>
                       submit_batches ext sched self preprocess_exit_step options (Suc k) batches rs2)))"

text \<open>
  The parallel branch of \<open>Processor.process\<close>, lines 177 to 210, on the batches the loader
  yields. An exception leaves the \<open>with\<close> block and ends the run: the result is the final
  state and the exception, if any.
\<close>

definition process_parallel ::
  "('tu, 'tok, 'out) externals \<Rightarrow> scheduling \<Rightarrow> processor \<Rightarrow> shared_state \<Rightarrow> 'tu tu_batch list \<Rightarrow>
   int option \<Rightarrow> dict option \<Rightarrow> ('tu, 'tok, 'out) run_state \<times> exn option" where
  "process_parallel ext sched self global_shared_state loader preprocess_exit_step options =
     (case submit_batches ext sched self preprocess_exit_step options 0 loader
             \<lparr>rs_shared = global_shared_state, rs_workers = (\<lambda>w. None), rs_results = [],
              rs_consumed = [], rs_polls = 0, rs_submitted = [], rs_outstanding = [0]\<rparr> of
        (rs, Some e) \<Rightarrow> (rs, Some e)
      | (rs, None) \<Rightarrow>
          (case drain_all (rs_results rs) (rs_consumed rs) (rs_outstanding rs) of
             ((results, consumed, lens), failure) \<Rightarrow>
               (rs\<lparr>rs_results := results, rs_consumed := consumed, rs_outstanding := lens\<rparr>,
                failure)))"

text \<open>
  The sequential branch, lines 154 to 167: the shared state, the current pipeline and what
  the consumer has been called with.
\<close>

fun process_inline ::
  "('tu, 'tok, 'out) externals \<Rightarrow> scheduling \<Rightarrow> processor \<Rightarrow> int option \<Rightarrow> dict option \<Rightarrow> nat \<Rightarrow>
   'tu tu_batch list \<Rightarrow>
   shared_state \<times> ('tu, 'tok) pipeline option \<times> ('out list \<times> batch_meta) list \<Rightarrow>
   (shared_state \<times> ('tu, 'tok) pipeline option \<times> ('out list \<times> batch_meta) list) \<times> exn option" where
  "process_inline ext sched self preprocess_exit_step options k [] st = (st, None)"
| "process_inline ext sched self preprocess_exit_step options k (tu_batch # batches)
     (shared, pipeline, consumed) =
     (let override_label = get_corpus_label tu_batch
      in case SharedState_get ext shared override_label of
           Inl e \<Rightarrow> ((shared, pipeline, consumed), Some e)
         | Inr (r, shared') \<Rightarrow>
             (case process_batch ext (clock_of sched k) pipeline tu_batch options (proc_config self)
                     (pipeline_type self) preprocess_exit_step override_label (state_of shared' r) of
                Inl e \<Rightarrow> ((shared', pipeline, consumed), Some e)
              | Inr (outputs, pipeline') \<Rightarrow>
                  process_inline ext sched self preprocess_exit_step options (Suc k) batches
                    (shared', Some pipeline', consumed @ [outputs])))"

section \<open>Notions the properties are stated with\<close>

text \<open>
  The operators that \<open>_add_op_list\<close> builds, starting from an empty \<open>_ops\<close> and the given
  build state, for the list configured under \<open>key\<close> (none when the list is missing or empty,
  as \<open>_build_pipeline\<close> tests), with the build state they leave.
\<close>

definition built_from ::
  "('tu, 'tok) registry \<Rightarrow> dict \<Rightarrow> ProcessType \<Rightarrow> label \<Rightarrow> string \<Rightarrow> int option \<Rightarrow>
   (nat \<times> (string \<times> nat) list) list option \<Rightarrow> 'tok build_state \<Rightarrow>
   exn + ('tu operator list \<times> 'tok build_state)" where
  "built_from reg config process_type override_label key exit_step shared_state build_state =
     (if truthy (dict_get config key) then
        (case py_iter (dict_get config key) of
           Inl e \<Rightarrow> Inl e
         | Inr entries \<Rightarrow>
             add_op_entries reg config process_type override_label exit_step shared_state
               (List.enumerate 0 entries) ([], build_state))
      else Inr ([], build_state))"

text \<open>The entries of the operator list configured under \<open>key\<close>, as \<open>enumerate\<close> iterates them.\<close>

definition entries_of :: "dict \<Rightarrow> string \<Rightarrow> pyval list" where
  "entries_of config key = (case py_iter (dict_get config key) of Inl e \<Rightarrow> [] | Inr entries \<Rightarrow> entries)"

text \<open>
  The explicit name of an entry: the value under \<open>name\<close> in its resolved parameters (the entry
  with the active override merged in), which \<open>build_operator\<close> pops; none when they have no
  such key.
\<close>

definition entry_name :: "label \<Rightarrow> pyval \<Rightarrow> pyval option" where
  "entry_name override_label entry =
     (case entry of
        PDict d \<Rightarrow>
          (case get_operator_params d (dict_get d ''op'') override_label of
             Inl e \<Rightarrow> None
           | Inr operator_params \<Rightarrow> map_of operator_params ''name'')
      | _ \<Rightarrow> None)"

text \<open>The default name \<open>"%s_%d" % (operator_type, index)\<close> of the entry at an index.\<close>

definition default_name :: "nat \<times> pyval \<Rightarrow> pyval" where
  "default_name ie =
     PStr ((case get_operator_type (snd ie) of Inr (PStr t) \<Rightarrow> t | _ \<Rightarrow> []) @ ''_'' @ show_nat (fst ie))"

text \<open>
  The name the entry at an index is to be bound under: its explicit name, and its default name
  when it has none.
\<close>

definition bound_name :: "label \<Rightarrow> nat \<times> pyval \<Rightarrow> pyval" where
  "bound_name override_label ie =
     (case entry_name override_label (snd ie) of Some v \<Rightarrow> v | None \<Rightarrow> default_name ie)"

text \<open>The same operator, declaring option support (\<open>accept_options()\<close> returning \<open>True\<close>).\<close>

definition supporting :: "'tu operator \<Rightarrow> 'tu operator" where
  "supporting op = op\<lparr>op_accept_options := True\<rparr>"



text \<open>
  The result of the task of the \<open>k\<close>-th batch: what \<open>_process_batch_on_worker\<close> returns or
  raises for the batch with its label, in the worker that takes the \<open>k\<close>-th task, when that
  worker's global pipeline is \<open>worker_pipeline\<close> and the task carries \<open>shared_state\<close>.
\<close>

definition task_result ::
  "('tu, 'tok, 'out) externals \<Rightarrow> scheduling \<Rightarrow> processor \<Rightarrow> int option \<Rightarrow> dict option \<Rightarrow> nat \<Rightarrow>
   'tu tu_batch \<Rightarrow> ('tu, 'tok) pipeline option \<Rightarrow> (nat \<times> (string \<times> nat) list) list option \<Rightarrow>
   exn + ('out list \<times> batch_meta)" where
  "task_result ext sched self preprocess_exit_step options k tu_batch worker_pipeline shared_state =
     fst (process_batch_on_worker ext (clock_of sched k) (worker_name sched (worker_of sched k))
            worker_pipeline tu_batch options (proc_config self) (pipeline_type self)
            preprocess_exit_step (get_corpus_label tu_batch) shared_state)"

text \<open>
  What the task of each batch runs with, batch by batch in the order of the loader, from the
  \<open>k\<close>-th on: the pipeline that its worker holds from the tasks it ran before, and the shared
  state that \<open>SharedState.get\<close> gives for the label of the batch. The list ends before a batch
  for which \<open>get\<close> raises.
\<close>

fun task_inputs ::
  "('tu, 'tok, 'out) externals \<Rightarrow> scheduling \<Rightarrow> processor \<Rightarrow> int option \<Rightarrow> dict option \<Rightarrow> nat \<Rightarrow>
   'tu tu_batch list \<Rightarrow> shared_state \<Rightarrow> (nat \<Rightarrow> ('tu, 'tok) pipeline option) \<Rightarrow>
   (('tu, 'tok) pipeline option \<times> (nat \<times> (string \<times> nat) list) list option) list" where
  "task_inputs ext sched self preprocess_exit_step options k [] shared workers = []"
| "task_inputs ext sched self preprocess_exit_step options k (tu_batch # batches) shared workers =
     (case SharedState_get ext shared (get_corpus_label tu_batch) of
        Inl e \<Rightarrow> []
      | Inr (r, shared') \<Rightarrow>
          (let w = worker_of sched k;
               worker_pipeline' =
                 snd (process_batch_on_worker ext (clock_of sched k) (worker_name sched w)
                        (workers w) tu_batch options (proc_config self) (pipeline_type self)
                        preprocess_exit_step (get_corpus_label tu_batch) (state_of shared' r))
           in (workers w, state_of shared' r) #
              task_inputs ext sched self preprocess_exit_step options (Suc k) batches shared'
                (workers(w := worker_pipeline'))))"

text \<open>
  The same for a whole run: from the first batch of the loader, no worker holding a pipeline
  yet, and the shared state as the run is given it.
\<close>

definition run_inputs ::
  "('tu, 'tok, 'out) externals \<Rightarrow> scheduling \<Rightarrow> processor \<Rightarrow> shared_state \<Rightarrow> 'tu tu_batch list \<Rightarrow>
   int option \<Rightarrow> dict option \<Rightarrow>
   (('tu, 'tok) pipeline option \<times> (nat \<times> (string \<times> nat) list) list option) list" where
  "run_inputs ext sched self global_shared_state loader preprocess_exit_step options =
     task_inputs ext sched self preprocess_exit_step options 0 loader global_shared_state (\<lambda>w. None)"

text \<open>
  What holds of a parallel run's state with the exception \<open>failure\<close> it ended with, if any:
  the handles submitted are, in order, the results the consumer was called with, then the
  failed result whose \<open>get()\<close> raised \<open>failure\<close> (if that is how the run ended), then the
  results still in the deque; the deque never held more than twice the worker count; and
  there are no more handles than batches.
\<close>

definition run_ok ::
  "processor \<Rightarrow> 'tu tu_batch list \<Rightarrow> ('tu, 'tok, 'out) run_state \<Rightarrow> exn option \<Rightarrow> bool" where
  "run_ok self loader rs failure =
     ((\<exists>popped. rs_submitted rs = map Inr (rs_consumed rs) @ popped @ rs_results rs
          \<and> (popped = [] \<or> (\<exists>e. popped = [Inl e] \<and> failure = Some e)))
      \<and> (\<forall>m \<in> set (rs_outstanding rs). m \<le> 2 * num_workers self)
      \<and> length (rs_submitted rs) \<le> length loader)"

section \<open>Example data\<close>

definition example_entry :: dict where
  "example_entry =
     [(''op'', PStr ''tokenization''), (''mode'', PStr ''a''),
      (''overrides'', PDict [(''A'', PDict [(''mode'', PStr ''b'')]),
                            (''B'', PDict [(''case'', PBool True)])])]"

definition example_cls :: "nat \<Rightarrow> (nat, nat) operator_cls" where
  "example_cls t =
     \<lparr>is_applied_for = (\<lambda>process_type. True),
      accept_options = False,
      get_shared_classes = None,
      get_shared_builders = (\<lambda>config process_type. None),
      init = (\<lambda>params process_type build_state shared.
                Inr (\<lambda>name process_type kwargs tu_batch. Inr tu_batch,
                     build_state\<lparr>src_tokenizer := Some t\<rparr>))\<rparr>"

definition example_registry :: "(nat, nat) registry" where
  "example_registry =
     map_of [(''tokenization'', example_cls 1), (''align'', example_cls 2),
             (''length_filter'', Filter_cls (\<lambda>params. [\<lambda>tu. 3 < tu]))]"

definition example_config :: dict where
  "example_config =
     [(''source'', PStr ''en''), (''target'', PStr ''de''),
      (''preprocess'', PList [PDict [(''op'', PStr ''tokenization'')],
                             PDict [(''op'', PStr ''length_filter'')],
                             PDict [(''op'', PStr ''align'')]]),
      (''postprocess'', PList [PDict [(''op'', PStr ''tokenization'')]])]"

definition named_config :: dict where
  "named_config =
     [(''source'', PStr ''en''), (''target'', PStr ''de''),
      (''preprocess'', PList [PDict [(''op'', PStr ''tokenization''), (''name'', PStr ''tok'')],
                             PDict [(''op'', PStr ''align''), (''name'', PStr ''tok'')]])]"

definition mixed_config :: dict where
  "mixed_config =
     [(''source'', PStr ''en''), (''target'', PStr ''de''),
      (''preprocess'', PList [PDict [(''op'', PStr ''tokenization''), (''name'', PStr ''tok'')],
                             PDict [(''op'', PStr ''align'')],
                             PDict [(''op'', PStr ''tokenization'')]]),
      (''postprocess'', PList [PDict [(''op'', PStr ''tokenization'')]])]"

definition plain_op :: "nat operator" where
  "plain_op =
     \<lparr>op_name = PStr ''tokenization_0'', op_process_type = INFERENCE, op_accept_options = False,
      op_body = (\<lambda>name process_type kwargs tu_batch. Inr tu_batch)\<rparr>"

definition shift_op :: "nat operator" where
  "shift_op =
     \<lparr>op_name = PStr ''shift_1'', op_process_type = INFERENCE, op_accept_options = True,
      op_body = (\<lambda>name process_type kwargs tu_batch.
                   (case kwargs of
                      Some (PInt k) \<Rightarrow> Inr (map (\<lambda>tu. tu + nat k) (fst tu_batch), snd tu_batch)
                    | _ \<Rightarrow> Inr tu_batch))\<rparr>"

definition example_meta :: batch_meta where
  "example_meta = \<lparr>meta_label = LNone, base_name = None, filter_summary = None, ops_profile = None\<rparr>"

definition example_pipeline :: "(nat, nat) pipeline" where
  "example_pipeline =
     \<lparr>p_process_type = INFERENCE, p_override_label = LNone,
      p_start_state = \<lparr>src_tokenizer = None, tgt_tokenizer = None, postprocess_only = False,
                       src_vocabulary = PNone, tgt_vocabulary = PNone\<rparr>,
      p_build_state = \<lparr>src_tokenizer = Some 1, tgt_tokenizer = None, postprocess_only = False,
                       src_vocabulary = PNone, tgt_vocabulary = PNone\<rparr>,
      p_ops = [plain_op, shift_op], p_config = []\<rparr>"

definition table_cls :: shared_cls where
  "table_cls = \<lparr>cls_name = ''Table'', cls_new = (\<lambda>args. None)\<rparr>"

definition align_cls :: "(nat, nat) operator_cls" where
  "align_cls =
     \<lparr>is_applied_for = (\<lambda>process_type. True),
      accept_options = False,
      get_shared_classes = Some [table_cls],
      get_shared_builders = (\<lambda>config process_type. Some [(''table'', table_cls, [dict_get config ''path''])]),
      init = (\<lambda>params process_type build_state shared.
                Inr (\<lambda>name process_type kwargs tu_batch. Inr tu_batch, build_state))\<rparr>"

fun example_repr :: "label \<Rightarrow> string" where
  "example_repr LNone = ''None''"
| "example_repr (LSet xs) = ''{'' @ concat (map (\<lambda>x. x @ '','') xs) @ ''}''"
| "example_repr (LList xs) = ''['' @ concat (map (\<lambda>x. x @ '','') xs) @ '']''"
| "example_repr (LStr s) = s"
| "example_repr (LDict d) = ''{:}''"

fun example_str :: "pyval list \<Rightarrow> string" where
  "example_str [] = ''()''"
| "example_str (PStr s # args) = s @ '','' @ example_str args"
| "example_str (v # args) = ''?,'' @ example_str args"

definition example_ext :: "(nat, nat, nat) externals" where
  "example_ext =
     \<lparr>registry = map_of [(''tokenization'', example_cls 1), (''align'', align_cls)],
      tu_finalize = (\<lambda>process_type tu. Inr tu),
      tu_export = (\<lambda>process_type tu. Inr tu),
      repr_label = example_repr,
      str_args = example_str\<rparr>"

definition shared_config :: dict where
  "shared_config =
     [(''source'', PStr ''en''), (''target'', PStr ''de''),
      (''preprocess'', PList [PDict [(''op'', PStr ''tokenization'')],
                             PDict [(''op'', PStr ''align''), (''path'', PStr ''a.tbl''),
                                    (''overrides'', PDict [(''A'', PDict [(''path'', PStr ''b.tbl'')])])]])]"

definition default_state :: shared_state where
  "default_state =
     \<lparr>ss_all_state = [(1, [(''Table_a.tbl,()'', 0)])], ss_cached_state = [(''None'', 1)],
      ss_config = shared_config, ss_process_type = TRAINING, ss_preprocess_exit_step = None,
      ss_num_workers = 0, ss_manager = None,
      ss_heap = [Instance ''Table'' [PStr ''a.tbl''] False, StateDict [(1, [(''table'', 0)])]]\<rparr>"

definition worker_config :: dict where
  "worker_config =
     [(''source'', PStr ''en''), (''target'', PStr ''de''),
      (''preprocess'', PList [PDict [(''op'', PStr ''tokenization''),
                                    (''overrides'', PDict [(''A'', PDict [(''source'', PInt 5)])])]])]"

definition example_sched :: scheduling where
  "example_sched =
     \<lparr>ready_now = (\<lambda>n. False), worker_of = (\<lambda>k. 0), worker_name = (\<lambda>w. ''ForkPoolWorker-1''),
      clock_of = (\<lambda>k n. 0)\<rparr>"

definition example_proc :: processor where
  "example_proc = \<lparr>num_workers = 1, proc_config = worker_config, pipeline_type = INFERENCE\<rparr>"

definition worker_shared :: shared_state where
  "worker_shared =
     \<lparr>ss_all_state = [], ss_cached_state = [(''None'', 0)], ss_config = worker_config,
      ss_process_type = INFERENCE, ss_preprocess_exit_step = None, ss_num_workers = 1,
      ss_manager = Some [], ss_heap = [StateDict []]\<rparr>"

definition corpus_batch :: "nat list \<Rightarrow> label \<Rightarrow> string \<Rightarrow> nat tu_batch" where
  "corpus_batch tu_list l name =
     (tu_list, \<lparr>meta_label = l, base_name = Some name, filter_summary = None, ops_profile = None\<rparr>)"

definition failing_loader :: "nat tu_batch list" where
  "failing_loader =
     [corpus_batch [1, 2] LNone ''a.txt'', corpus_batch [3] (LStr ''A'') ''b.txt'',
      corpus_batch [4] LNone ''c.txt'']"

definition example_loader :: "nat tu_batch list" where
  "example_loader =
     [corpus_batch [1, 2] LNone ''a.txt'', corpus_batch [3] (LStr ''B'') ''b.txt'',
      corpus_batch [4] LNone ''c.txt'']"

section \<open>Operator parameters and overrides\<close>

lemma matching_labels_dict:
  "matching_labels ls (PDict oc) = Inr (filter (\<lambda>l. map_of oc l \<noteq> None) ls)"
  by (induction ls) auto

lemma merge_config_Cons:
  "merge_config a ((k, v) # b) =
     merge_config (AList.update k
       (case (map_of a k, v) of (Some (PDict av), PDict bv) \<Rightarrow> PDict (merge_config av bv) | _ \<Rightarrow> v) a) b"
  by (cases v) (auto split: option.splits pyval.splits)

lemma map_of_merge_config:
  "distinct (map fst b) \<Longrightarrow>
   map_of (merge_config a b) k =
     (case map_of b k of
        None \<Rightarrow> map_of a k
      | Some v \<Rightarrow> Some (case (map_of a k, v) of
                        (Some (PDict av), PDict bv) \<Rightarrow> PDict (merge_config av bv)
                      | _ \<Rightarrow> v))"
proof (induction b arbitrary: a)
  case Nil
  then show ?case by simp
next
  case (Cons kv b)
  obtain k' v' where kv: "kv = (k', v')" by (cases kv)
  from Cons.prems kv have db: "distinct (map fst b)" and nk: "map_of b k' = None"
    by (auto simp: map_of_eq_None_iff)
  show ?case
  proof (cases "k = k'")
    case True
    with nk have "map_of b k = None" by simp
    then show ?thesis
      unfolding kv merge_config_Cons True [symmetric]
      by (simp add: Cons.IH [OF db] AList.update_conv' del: merge_config.simps)
  next
    case False
    then have upd: "map_of (AList.update k' x a) k = map_of a k" for x
      by (simp add: AList.update_conv')
    show ?thesis
      unfolding kv merge_config_Cons
      using False by (simp add: Cons.IH [OF db] upd del: merge_config.simps cong: option.case_cong)
  qed
qed

lemma merge_config_keys:
  "fst ` set (merge_config a b) = fst ` set a \<union> fst ` set b"
proof (induction b arbitrary: a)
  case Nil
  then show ?case by simp
next
  case (Cons kv b)
  obtain k' v' where kv: "kv = (k', v')" by (cases kv)
  show ?case unfolding kv merge_config_Cons
    by (auto simp: Cons.IH AList.dom_update simp del: merge_config.simps)
qed

text \<open>
  C3. Let an operator configuration entry carry an override map \<open>oc\<close>, and let resolution be
  given an active label set (a Python set: no duplicates). If exactly one label of the set is
  a key of the override map, \<open>get_operator_params\<close> returns the base parameters (the entry
  without its \<open>op\<close> and \<open>overrides\<close> fields) deep-merged with that label's override; if more
  than one label is a key, it raises the ambiguity error; if none is, it returns the base
  parameters unchanged.
\<close>

theorem get_operator_params_override_cases:
  assumes ov: "map_of config ''overrides'' = Some (PDict oc)"
    and d: "distinct labels"
  shows "(\<forall>l ovv. l \<in> set labels \<and> map_of oc l = Some (PDict ovv)
            \<and> card {l \<in> set labels. map_of oc l \<noteq> None} = 1 \<longrightarrow>
          get_operator_params config t (LSet labels) =
            Inr (merge_config (AList.delete ''overrides'' (AList.delete ''op'' config)) ovv))
       \<and> (card {l \<in> set labels. map_of oc l \<noteq> None} > 1 \<longrightarrow>
          get_operator_params config t (LSet labels) = Inl (AmbiguousOverrides (PDict oc) t))
       \<and> (card {l \<in> set labels. map_of oc l \<noteq> None} = 0 \<longrightarrow>
          get_operator_params config t (LSet labels) =
            Inr (AList.delete ''overrides'' (AList.delete ''op'' config)))"
proof -
  let ?m = "filter (\<lambda>l. map_of oc l \<noteq> None) labels"
  have len: "length ?m = card {l \<in> set labels. map_of oc l \<noteq> None}"
    using d by (simp add: distinct_length_filter Int_def conj_commute)
  have get: "dict_get (AList.delete ''op'' config) ''overrides'' = PDict oc"
    using ov by (simp add: dict_get_def AList.delete_conv')
  have one: "get_operator_params config t (LSet labels) =
      Inr (merge_config (AList.delete ''overrides'' (AList.delete ''op'' config)) ovv)"
    if "l \<in> set labels" "map_of oc l = Some (PDict ovv)" "length ?m = 1" for l ovv
  proof -
    from that(1,2) have lm: "l \<in> set ?m" by simp
    from that(3) obtain a where ma: "?m = [a]" by (cases ?m) auto
    from lm have "l = a" unfolding ma by simp
    with ma have m: "?m = [l]" by simp
    have "labels \<noteq> []" "oc \<noteq> []" using that(1,2) by auto
    then show ?thesis
      using m that(2) by (simp add: get_operator_params_def get matching_labels_dict Let_def)
  qed
  have many: "get_operator_params config t (LSet labels) = Inl (AmbiguousOverrides (PDict oc) t)"
    if "length ?m > 1"
  proof -
    from that have ne: "?m \<noteq> []" by auto
    from hd_in_set [OF ne] have "map_of oc (hd ?m) \<noteq> None" by simp
    then have "oc \<noteq> []" by auto
    moreover from ne have "labels \<noteq> []" by auto
    ultimately have "labels \<noteq> []" "oc \<noteq> []" by simp_all
    then show ?thesis
      using that by (simp add: get_operator_params_def get matching_labels_dict Let_def)
  qed
  have none: "get_operator_params config t (LSet labels) =
      Inr (AList.delete ''overrides'' (AList.delete ''op'' config))"
    if "length ?m = 0"
    using that by (simp add: get_operator_params_def get matching_labels_dict Let_def)
  show ?thesis
    using one many none unfolding len by blast
qed

theorem get_operator_params_override_cases_witness:
  "get_operator_params example_entry (PStr ''tokenization'') (LSet [''A'']) =
     Inr [(''mode'', PStr ''b'')]
   \<and> get_operator_params example_entry (PStr ''tokenization'') (LSet [''A'', ''B'']) =
     Inl (AmbiguousOverrides
           (PDict [(''A'', PDict [(''mode'', PStr ''b'')]), (''B'', PDict [(''case'', PBool True)])])
           (PStr ''tokenization''))
   \<and> get_operator_params example_entry (PStr ''tokenization'') (LSet [''C'']) =
     Inr [(''mode'', PStr ''a'')]"
proof -
  let ?oc = "[(''A'', PDict [(''mode'', PStr ''b'')]), (''B'', PDict [(''case'', PBool True)])]"
  have ov: "map_of example_entry ''overrides'' = Some (PDict ?oc)"
    by (simp add: example_entry_def)
  have c1: "{l \<in> set [''A'']. map_of ?oc l \<noteq> None} = {''A''}" by auto
  have c2: "{l \<in> set [''A'', ''B'']. map_of ?oc l \<noteq> None} = {''A'', ''B''}" by auto
  have c3: "{l \<in> set [''C'']. map_of ?oc l \<noteq> None} = {}" by auto
  have d1: "distinct [''A'']" and d2: "distinct [''A'', ''B'']" and d3: "distinct [''C'']"
    by simp_all
  note t1 = get_operator_params_override_cases [OF ov d1, of "PStr ''tokenization''"]
  note t2 = get_operator_params_override_cases [OF ov d2, of "PStr ''tokenization''"]
  note t3 = get_operator_params_override_cases [OF ov d3, of "PStr ''tokenization''"]
  have "get_operator_params example_entry (PStr ''tokenization'') (LSet [''A'']) =
      Inr (merge_config (AList.delete ''overrides'' (AList.delete ''op'' example_entry))
             [(''mode'', PStr ''b'')])"
    using t1 unfolding c1 by simp
  moreover have "get_operator_params example_entry (PStr ''tokenization'') (LSet [''A'', ''B'']) =
      Inl (AmbiguousOverrides (PDict ?oc) (PStr ''tokenization''))"
    using t2 unfolding c2 by simp
  moreover have "get_operator_params example_entry (PStr ''tokenization'') (LSet [''C'']) =
      Inr (AList.delete ''overrides'' (AList.delete ''op'' example_entry))"
    using t3 unfolding c3 by simp
  ultimately show ?thesis
    by (simp add: example_entry_def)
qed


section \<open>Pipeline assembly\<close>

lemma add_op_entries_append:
  "add_op_entries reg config pt lbl exit_step shared entries (ops, bs) =
     (case add_op_entries reg config pt lbl exit_step shared entries ([], bs) of
        Inl e \<Rightarrow> Inl e
      | Inr (new, bs') \<Rightarrow> Inr (ops @ new, bs'))"
proof (induction entries arbitrary: ops bs)
  case Nil
  then show ?case by simp
next
  case (Cons ic entries)
  obtain i c where ic: "ic = (i, c)" by (cases ic)
  have step: "add_op_entries reg config pt lbl exit_step shared entries (ops @ [operator], bs') =
      (case add_op_entries reg config pt lbl exit_step shared entries ([operator], bs') of
         Inl e \<Rightarrow> Inl e
       | Inr (new, bs'') \<Rightarrow> Inr (ops @ new, bs''))" for operator bs'
    by (subst Cons.IH [of "ops @ [operator]"], subst Cons.IH [of "[operator]"])
       (simp split: sum.splits prod.splits)
  show ?case
  proof (cases "case exit_step of None \<Rightarrow> False | Some n \<Rightarrow> int i > n")
    case True
    then show ?thesis unfolding ic by simp
  next
    case ex: False
    show ?thesis
    proof (cases "operator_info reg pt lbl True i c")
      case (Inl e)
      with ex show ?thesis unfolding ic by simp
    next
      case (Inr info)
      show ?thesis
      proof (cases info)
        case None
        with ex Inr show ?thesis unfolding ic using Cons.IH [of ops bs] by simp
      next
        case (Some q)
        obtain cls params t j where q: "q = (cls, params, t, j)" by (cases q)
        let ?sh = "case shared of Some (x # xs) \<Rightarrow> map_of (x # xs) j | _ \<Rightarrow> None"
        show ?thesis
        proof (cases "build_operator t cls params config pt bs j ?sh")
          case bl: (Inl e)
          show ?thesis unfolding ic using ex Inr Some q bl by simp
        next
          case br: (Inr r)
          obtain operator bs' where r: "r = (operator, bs')" by (cases r)
          show ?thesis unfolding ic using ex Inr Some q br r
            by (simp add: step split: sum.splits prod.splits)
        qed
      qed
    qed
  qed
qed


text \<open>
  C1. When a pipeline is built for POSTPROCESS, its operator sequence is the reverse of the
  main operator sequence (the operators constructed from the \<open>preprocess\<close> list) followed by
  the postprocess-only operators in the order of their list; its start state is the build
  state the main block left, and the postprocess-only operators are constructed from the
  initial start state with the postprocess-only flag set, which yields the final build state.
\<close>

theorem postprocess_pipeline_order:
  fixes p :: "('tu, 'tok) pipeline"
  assumes "Pipeline reg config POSTPROCESS exit_step lbl shared = Inr p"
  shows "\<exists>start main main_state post.
           initial_state config = Inr start
         \<and> built_from reg config POSTPROCESS lbl ''preprocess'' exit_step shared start =
             Inr (main, main_state)
         \<and> built_from reg config POSTPROCESS lbl ''postprocess'' None None
             (start\<lparr>postprocess_only := True\<rparr>) = Inr (post, p_build_state p)
         \<and> p_ops p = rev main @ post
         \<and> p_start_state p = main_state"
proof -
  from assms obtain start :: "'tok build_state" where start: "initial_state config = Inr start"
    by (auto simp: Pipeline_def split: sum.splits)
  let ?self = "\<lparr>p_process_type = POSTPROCESS, p_override_label = lbl, p_start_state = start,
                p_build_state = start, p_ops = [], p_config = config\<rparr>"
  from assms start have bp: "build_pipeline reg ?self config exit_step shared = Inr p"
    by (simp add: Pipeline_def)
  obtain main main_state where main:
    "built_from reg config POSTPROCESS lbl ''preprocess'' exit_step shared start = Inr (main, main_state)"
    using bp
    by (cases "built_from reg config POSTPROCESS lbl ''preprocess'' exit_step shared start")
       (auto simp: build_pipeline_def built_from_def add_op_list_def Let_def split: sum.splits if_splits)
  let ?self5 = "\<lparr>p_process_type = POSTPROCESS, p_override_label = lbl, p_start_state = main_state,
                p_build_state = start\<lparr>postprocess_only := True\<rparr>, p_ops = rev main, p_config = config\<rparr>"
  from bp main have post_stage:
    "(if truthy (dict_get config ''postprocess'')
      then add_op_list reg ?self5 (dict_get config ''postprocess'') None None
      else Inr ?self5) = Inr p"
    by (auto simp: build_pipeline_def built_from_def add_op_list_def Let_def
             split: sum.splits if_splits)
  show ?thesis
  proof (cases "truthy (dict_get config ''postprocess'')")
    case False
    with post_stage have "p = ?self5" by simp
    with start main False show ?thesis by (simp add: built_from_def)
  next
    case True
    with post_stage obtain entries ops bs where
      it: "py_iter (dict_get config ''postprocess'') = Inr entries" and
      ae: "add_op_entries reg config POSTPROCESS lbl None None (List.enumerate 0 entries)
             (rev main, start\<lparr>postprocess_only := True\<rparr>) = Inr (ops, bs)" and
      p: "p = ?self5\<lparr>p_ops := ops, p_build_state := bs\<rparr>"
      by (auto simp: add_op_list_def split: sum.splits)
    from ae obtain post where
      post: "add_op_entries reg config POSTPROCESS lbl None None (List.enumerate 0 entries)
             ([], start\<lparr>postprocess_only := True\<rparr>) = Inr (post, bs)" and
      ops: "ops = rev main @ post"
      by (subst (asm) add_op_entries_append) (auto split: sum.splits)
    from start main True it post ops p show ?thesis by (simp add: built_from_def)
  qed
qed


lemmas example_defs =
  example_registry_def example_config_def example_cls_def Filter_cls_def
  Pipeline_def initial_state_def vocabulary_path_def build_pipeline_def add_op_list_def
  operator_info_def get_operator_params_def build_operator_def add_lang_info_def dict_get_def
  digit_char_def Let_def

lemma example_postprocess_pipeline:
  "\<exists>p. Pipeline example_registry example_config POSTPROCESS None LNone None = Inr p
       \<and> map op_name (p_ops p) = [PStr ''align_2'', PStr ''tokenization_0'', PStr ''tokenization_0'']"
  by (simp add: example_defs)

theorem postprocess_pipeline_order_witness:
  "\<exists>p start main main_state post.
       Pipeline example_registry example_config POSTPROCESS None LNone None = Inr p
     \<and> initial_state example_config = Inr start
     \<and> built_from example_registry example_config POSTPROCESS LNone ''preprocess'' None None start =
         Inr (main, main_state)
     \<and> built_from example_registry example_config POSTPROCESS LNone ''postprocess'' None None
         (start\<lparr>postprocess_only := True\<rparr>) = Inr (post, p_build_state p)
     \<and> p_ops p = rev main @ post
     \<and> p_start_state p = main_state"
proof -
  from example_postprocess_pipeline obtain p where
    "Pipeline example_registry example_config POSTPROCESS None LNone None = Inr p"
    by blast
  from this postprocess_pipeline_order [OF this] show ?thesis by blast
qed

section \<open>Operator names\<close>

declare show_nat.simps [simp del]

lemma digit_char_inj:
  "a < 10 \<Longrightarrow> b < 10 \<Longrightarrow> digit_char a = digit_char b \<Longrightarrow> a = b"
proof -
  assume a: "a < 10" and b: "b < 10" and eq: "digit_char a = digit_char b"
  have d: "distinct ''0123456789''" by simp
  have "a < length ''0123456789''" "b < length ''0123456789''" using a b by simp_all
  with d eq show "a = b" by (simp only: digit_char_def nth_eq_iff_index_eq)
qed

lemma digit_char_not_underscore: "d < 10 \<Longrightarrow> digit_char d \<noteq> CHR ''_''"
proof -
  assume "d < 10"
  then have "digit_char d \<in> set ''0123456789''"
    unfolding digit_char_def by (intro nth_mem) simp
  then show ?thesis by auto
qed

lemma show_nat_nonempty: "show_nat n \<noteq> []"
  by (subst show_nat.simps) simp

lemma show_nat_no_underscore: "CHR ''_'' \<notin> set (show_nat n)"
proof (induction n rule: show_nat.induct)
  case (1 n)
  show ?case
  proof (cases "n < 10")
    case True
    then show ?thesis
      using digit_char_not_underscore [of n] by (subst show_nat.simps) auto
  next
    case False
    have "n mod 10 < 10" by simp
    with False "1.IH" show ?thesis
      using digit_char_not_underscore [of "n mod 10"] by (subst show_nat.simps) auto
  qed
qed

lemma show_nat_inj: "show_nat n = show_nat m \<Longrightarrow> n = m"
proof (induction n arbitrary: m rule: show_nat.induct)
  case (1 n)
  show ?case
  proof (cases "n < 10")
    case n: True
    show ?thesis
    proof (cases "m < 10")
      case True
      with n "1.prems" show ?thesis
        by (simp add: show_nat.simps [of n] show_nat.simps [of m] digit_char_inj)
    next
      case False
      with n "1.prems" show_nat_nonempty [of "m div 10"] show ?thesis
        by (simp add: show_nat.simps [of n] show_nat.simps [of m])
    qed
  next
    case n: False
    show ?thesis
    proof (cases "m < 10")
      case True
      with n "1.prems" show_nat_nonempty [of "n div 10"] show ?thesis
        by (simp add: show_nat.simps [of n] show_nat.simps [of m])
    next
      case False
      with n "1.prems" have a: "show_nat (n div 10) = show_nat (m div 10)"
        and b: "digit_char (n mod 10) = digit_char (m mod 10)"
        by (simp_all add: show_nat.simps [of n] show_nat.simps [of m])
      from "1.IH" [OF n a] have "n div 10 = m div 10" .
      moreover from b have "n mod 10 = m mod 10" by (intro digit_char_inj) simp_all
      ultimately show ?thesis by (metis div_mult_mod_eq)
    qed
  qed
qed

lemma default_name_inj:
  assumes "t @ ''_'' @ show_nat i = t' @ ''_'' @ show_nat j"
  shows "i = j"
proof -
  have tw: "takeWhile (\<lambda>c. c \<noteq> CHR ''_'') (rev (u @ ''_'' @ show_nat k)) = rev (show_nat k)" for u k
    using show_nat_no_underscore [of k] by (simp add: takeWhile_append)
  from assms have "rev (show_nat i) = rev (show_nat j)"
    using tw [of t i] tw [of t' j] by simp
  then show ?thesis by (simp add: show_nat_inj)
qed


lemma add_lang_info_name:
  "add_lang_info params config side = Inr params' \<Longrightarrow> side \<noteq> ''name'' \<Longrightarrow> side @ ''_lang'' \<noteq> ''name''
   \<Longrightarrow> map_of params' ''name'' = map_of params ''name''"
  by (auto simp: add_lang_info_def AList.update_conv' split: option.splits pyval.splits)

lemma build_operator_name:
  assumes "build_operator t cls params config pt bs i sh = Inr (operator, bs')"
  shows "op_name operator =
           (case map_of params ''name'' of Some v \<Rightarrow> v | None \<Rightarrow> PStr (t @ ''_'' @ show_nat i))"
proof -
  from assms obtain p1 p2 where
    p1: "add_lang_info params config ''source'' = Inr p1" and
    p2: "add_lang_info p1 config ''target'' = Inr p2" and
    nm: "op_name operator =
           (case map_of p2 ''name'' of Some v \<Rightarrow> v | None \<Rightarrow> PStr (t @ ''_'' @ show_nat i))"
    by (auto simp: build_operator_def Let_def split: sum.splits)
  from add_lang_info_name [OF p1] add_lang_info_name [OF p2]
  have "map_of p2 ''name'' = map_of params ''name''" by simp
  with nm show ?thesis by simp
qed

lemma operator_info_Some:
  assumes "operator_info reg pt lbl ign i c = Inr (Some (cls, params, t, j))"
  shows "j = i \<and> get_operator_type c = Inr (PStr t)
         \<and> (\<exists>d. c = PDict d \<and> dict_get d ''op'' = PStr t
                \<and> get_operator_params d (PStr t) lbl = Inr params)"
proof -
  from assms obtain ty where ty: "get_operator_type c = Inr ty"
    by (auto simp: operator_info_def split: sum.splits)
  then obtain d where d: "c = PDict d" by (cases c) auto
  from ty d have op: "dict_get d ''op'' = ty" by (auto split: pyval.splits)
  from assms ty d show ?thesis
    using op
    by (auto simp: operator_info_def split: sum.splits if_splits pyval.splits prod.splits)
qed

lemma default_name_type_inj:
  assumes "t @ ''_'' @ show_nat i = t' @ ''_'' @ show_nat j"
  shows "i = j \<and> t = t'"
proof -
  from default_name_inj [OF assms] have "i = j" .
  with assms show ?thesis by simp
qed

lemma default_names_distinct:
  assumes "distinct (map fst sel)"
  shows "distinct (map default_name sel)"
proof -
  have "inj_on default_name (set sel)"
  proof (rule inj_onI)
    fix x y assume x: "x \<in> set sel" and y: "y \<in> set sel" and eq: "default_name x = default_name y"
    from eq have "fst x = fst y"
      unfolding default_name_def pyval.inject by (rule default_name_inj)
    with assms x y show "x = y"
      by (meson distinct_map inj_onD)
  qed
  moreover from assms have "distinct sel" by (simp add: distinct_map)
  ultimately show ?thesis by (simp add: distinct_map)
qed

lemma add_op_entries_bound_names:
  assumes "add_op_entries reg config pt lbl exit_step shared ies ([], bs) = Inr (ops, bs')"
  shows "\<exists>sel. subseq sel ies \<and> map op_name ops = map (bound_name lbl) sel
              \<and> (\<forall>ie \<in> set sel. \<exists>t. get_operator_type (snd ie) = Inr (PStr t))"
  using assms
proof (induction ies arbitrary: ops bs bs')
  case Nil
  then show ?case by simp
next
  case (Cons ic ies)
  obtain i c where ic: "ic = (i, c)" by (cases ic)
  show ?case
  proof (cases "case exit_step of None \<Rightarrow> False | Some n \<Rightarrow> int i > n")
    case True
    with Cons.prems(1) have "ops = []" unfolding ic by simp
    then show ?thesis by auto
  next
    case ex: False
    show ?thesis
    proof (cases "operator_info reg pt lbl True i c")
      case (Inl e)
      with ex Cons.prems(1) show ?thesis unfolding ic by simp
    next
      case (Inr info)
      show ?thesis
      proof (cases info)
        case None
        with ex Inr Cons.prems(1)
        have "add_op_entries reg config pt lbl exit_step shared ies ([], bs) = Inr (ops, bs')"
          unfolding ic by simp
        from Cons.IH [OF this] obtain sel where
          "subseq sel ies" "map op_name ops = map (bound_name lbl) sel"
          "\<forall>ie \<in> set sel. \<exists>t. get_operator_type (snd ie) = Inr (PStr t)" by blast
        then show ?thesis by (auto intro: subseq_Cons')
      next
        case (Some q)
        obtain cls params t j where q: "q = (cls, params, t, j)" by (cases q)
        from operator_info_Some [OF Inr [unfolded Some q]]
        obtain d where j: "j = i" and ty: "get_operator_type c = Inr (PStr t)" and
          d: "c = PDict d" and op: "dict_get d ''op'' = PStr t" and
          gp: "get_operator_params d (PStr t) lbl = Inr params" by blast
        from d op gp have en: "entry_name lbl c = map_of params ''name''"
          by (simp add: entry_name_def)
        let ?sh = "case shared of Some (x # xs) \<Rightarrow> map_of (x # xs) j | _ \<Rightarrow> None"
        show ?thesis
        proof (cases "build_operator t cls params config pt bs j ?sh")
          case bl: (Inl e)
          with ex Inr Some q Cons.prems(1) show ?thesis unfolding ic by simp
        next
          case br: (Inr r)
          obtain operator bs1 where r: "r = (operator, bs1)" by (cases r)
          from build_operator_name [OF br [unfolded r]] en j ty
          have nm: "op_name operator = bound_name lbl (i, c)"
            by (simp add: bound_name_def default_name_def split: option.splits)
          from ex Inr Some q br r Cons.prems(1)
          have "add_op_entries reg config pt lbl exit_step shared ies ([operator], bs1) = Inr (ops, bs')"
            unfolding ic by simp
          then obtain new where
            new: "add_op_entries reg config pt lbl exit_step shared ies ([], bs1) = Inr (new, bs')"
            and ops: "ops = [operator] @ new"
            by (subst (asm) add_op_entries_append) (auto split: sum.splits)
          from Cons.IH [OF new] obtain sel where
            sel: "subseq sel ies" "map op_name new = map (bound_name lbl) sel"
              "\<forall>ie \<in> set sel. \<exists>t. get_operator_type (snd ie) = Inr (PStr t)" by blast
          have "subseq ((i, c) # sel) (ic # ies)" using sel(1) by (simp add: ic)
          moreover have "map op_name ops = map (bound_name lbl) ((i, c) # sel)"
            using ops nm sel(2) by simp
          moreover have "\<forall>ie \<in> set ((i, c) # sel). \<exists>t. get_operator_type (snd ie) = Inr (PStr t)"
            using sel(3) ty by simp
          ultimately show ?thesis by blast
        qed
      qed
    qed
  qed
qed

lemma built_from_names:
  assumes "built_from reg config pt lbl key exit_step shared bs = Inr (ops, bs')"
  shows "\<exists>sel. subseq sel (List.enumerate 0 (entries_of config key))
              \<and> map op_name ops = map (bound_name lbl) sel
              \<and> (\<forall>ie \<in> set sel. \<exists>t. get_operator_type (snd ie) = Inr (PStr t))"
proof (cases "truthy (dict_get config key)")
  case False
  with assms have "ops = []" by (simp add: built_from_def)
  then show ?thesis by auto
next
  case True
  with assms obtain entries where it: "py_iter (dict_get config key) = Inr entries"
    and ae: "add_op_entries reg config pt lbl exit_step shared (List.enumerate 0 entries) ([], bs) =
               Inr (ops, bs')"
    by (auto simp: built_from_def split: sum.splits)
  from it have en: "entries_of config key = entries" by (simp add: entries_of_def)
  from add_op_entries_bound_names [OF ae] show ?thesis unfolding en .
qed

lemma Pipeline_blocks:
  fixes p :: "('tu, 'tok) pipeline"
  assumes "Pipeline reg config pt exit_step lbl shared = Inr p"
  shows "\<exists>start main main_state post post_state.
           built_from reg config pt lbl ''preprocess'' exit_step shared start = Inr (main, main_state)
         \<and> (if pt = POSTPROCESS
            then built_from reg config pt lbl ''postprocess'' None None
                   (start\<lparr>postprocess_only := True\<rparr>) = Inr (post, post_state)
                 \<and> p_ops p = rev main @ post
            else post = [] \<and> p_ops p = main)"
proof -
  from assms obtain start :: "'tok build_state" where start: "initial_state config = Inr start"
    by (auto simp: Pipeline_def split: sum.splits)
  let ?self = "\<lparr>p_process_type = pt, p_override_label = lbl, p_start_state = start,
                p_build_state = start, p_ops = [], p_config = config\<rparr>"
  from assms start have bp: "build_pipeline reg ?self config exit_step shared = Inr p"
    by (simp add: Pipeline_def)
  obtain main main_state where main:
    "built_from reg config pt lbl ''preprocess'' exit_step shared start = Inr (main, main_state)"
    using bp
    by (cases "built_from reg config pt lbl ''preprocess'' exit_step shared start")
       (auto simp: build_pipeline_def built_from_def add_op_list_def Let_def split: sum.splits if_splits)
  show ?thesis
  proof (cases "pt = POSTPROCESS")
    case False
    with bp main have "p_ops p = main"
      by (auto simp: build_pipeline_def built_from_def add_op_list_def Let_def
               split: sum.splits if_splits)
    with main False show ?thesis by auto
  next
    case pp: True
    let ?self5 = "\<lparr>p_process_type = pt, p_override_label = lbl, p_start_state = main_state,
                  p_build_state = start\<lparr>postprocess_only := True\<rparr>, p_ops = rev main, p_config = config\<rparr>"
    from bp main pp have post_stage:
      "(if truthy (dict_get config ''postprocess'')
        then add_op_list reg ?self5 (dict_get config ''postprocess'') None None
        else Inr ?self5) = Inr p"
      by (auto simp: build_pipeline_def built_from_def add_op_list_def Let_def
               split: sum.splits if_splits)
    show ?thesis
    proof (cases "truthy (dict_get config ''postprocess'')")
      case False
      with post_stage have "p_ops p = rev main @ []" by auto
      moreover from False have "built_from reg config pt lbl ''postprocess'' None None
          (start\<lparr>postprocess_only := True\<rparr>) = Inr ([], start\<lparr>postprocess_only := True\<rparr>)"
        by (simp add: built_from_def)
      ultimately show ?thesis using main pp by (auto simp del: append_Nil2)
    next
      case True
      with post_stage obtain entries ops bs where
        it: "py_iter (dict_get config ''postprocess'') = Inr entries" and
        ae: "add_op_entries reg config pt lbl None None (List.enumerate 0 entries)
               (rev main, start\<lparr>postprocess_only := True\<rparr>) = Inr (ops, bs)" and
        p: "p = ?self5\<lparr>p_ops := ops, p_build_state := bs\<rparr>"
        by (auto simp: add_op_list_def split: sum.splits)
      from ae obtain post where
        post: "add_op_entries reg config pt lbl None None (List.enumerate 0 entries)
               ([], start\<lparr>postprocess_only := True\<rparr>) = Inr (post, bs)" and
        ops: "ops = rev main @ post"
        by (subst (asm) add_op_entries_append) (auto split: sum.splits)
      from True it post have "built_from reg config pt lbl ''postprocess'' None None
          (start\<lparr>postprocess_only := True\<rparr>) = Inr (post, bs)"
        by (simp add: built_from_def)
      moreover from ops p have "p_ops p = rev main @ post" by simp
      ultimately show ?thesis using main pp by auto
    qed
  qed
qed

lemma selected_default_names:
  assumes "subseq sel (List.enumerate 0 entries)"
  shows "distinct (map default_name sel)"
proof -
  have "distinct (map fst (List.enumerate 0 entries))" by (simp add: map_fst_enumerate)
  moreover from assms have "subseq (map fst sel) (map fst (List.enumerate 0 entries))"
    by (rule subseq_map)
  ultimately have "distinct (map fst sel)"
    by (auto simp: subseq_conv_nths)
  then show ?thesis by (rule default_names_distinct)
qed

lemma unnamed_distinct:
  assumes "distinct (map default_name sel)"
  shows "distinct (map (bound_name lbl) (filter (\<lambda>ie. entry_name lbl (snd ie) = None) sel))"
proof -
  have eq: "map (bound_name lbl) (filter (\<lambda>ie. entry_name lbl (snd ie) = None) sel) =
        map default_name (filter (\<lambda>ie. entry_name lbl (snd ie) = None) sel)"
    by (induction sel) (simp_all add: bound_name_def)
  show ?thesis unfolding eq using assms by (rule distinct_map_filter)
qed

lemma default_name_eq:
  assumes "get_operator_type (snd x) = Inr (PStr t)" "get_operator_type (snd y) = Inr (PStr t')"
    and "default_name x = default_name y"
  shows "fst x = fst y \<and> get_operator_type (snd x) = get_operator_type (snd y)"
  using assms default_name_type_inj [of t "fst x" t' "fst y"]
  by (simp add: default_name_def)

text \<open>
  C9 (amended). Every bound operator has the explicit name of its configuration entry when the
  entry's resolved parameters give one, and otherwise the default name \<open>"{type}_{index}"\<close> with
  the index of the entry in its list: the names of a pipeline's operators are those of the
  entries selected from the \<open>preprocess\<close> list, in the order of the list (reversed for
  POSTPROCESS), followed for POSTPROCESS by those of the entries selected from the
  \<open>postprocess\<close> list. Among the operators of one list, those without explicit name have
  pairwise distinct names; and a default name of the \<open>preprocess\<close> list equals one of the
  \<open>postprocess\<close> list only for the same operator type at the same index.
\<close>

theorem default_operator_names:
  fixes p :: "('tu, 'tok) pipeline"
  assumes "Pipeline reg config pt exit_step lbl shared = Inr p"
  shows "\<exists>pre post.
           subseq pre (List.enumerate 0 (entries_of config ''preprocess''))
         \<and> subseq post (List.enumerate 0 (entries_of config ''postprocess''))
         \<and> (pt \<noteq> POSTPROCESS \<longrightarrow> post = [])
         \<and> map op_name (p_ops p) =
             map (bound_name lbl) ((if pt = POSTPROCESS then rev pre else pre) @ post)
         \<and> (\<forall>ie \<in> set (pre @ post). entry_name lbl (snd ie) = None \<longrightarrow>
               bound_name lbl ie =
                 PStr ((case get_operator_type (snd ie) of Inr (PStr t) \<Rightarrow> t | _ \<Rightarrow> [])
                       @ ''_'' @ show_nat (fst ie)))
         \<and> (\<forall>ie \<in> set (pre @ post). \<forall>v. entry_name lbl (snd ie) = Some v \<longrightarrow> bound_name lbl ie = v)
         \<and> distinct (map (bound_name lbl) (filter (\<lambda>ie. entry_name lbl (snd ie) = None) pre))
         \<and> distinct (map (bound_name lbl) (filter (\<lambda>ie. entry_name lbl (snd ie) = None) post))
         \<and> (\<forall>x \<in> set pre. \<forall>y \<in> set post. default_name x = default_name y \<longrightarrow>
               fst x = fst y \<and> get_operator_type (snd x) = get_operator_type (snd y))"
proof -
  from Pipeline_blocks [OF assms] obtain start :: "'tok build_state" and main main_state post_ops post_state
    where main: "built_from reg config pt lbl ''preprocess'' exit_step shared start = Inr (main, main_state)"
      and rest: "if pt = POSTPROCESS
            then built_from reg config pt lbl ''postprocess'' None None
                   (start\<lparr>postprocess_only := True\<rparr>) = Inr (post_ops, post_state)
                 \<and> p_ops p = rev main @ post_ops
            else post_ops = [] \<and> p_ops p = main" by blast
  from built_from_names [OF main] obtain pre where
    pre: "subseq pre (List.enumerate 0 (entries_of config ''preprocess''))"
    and pre_names: "map op_name main = map (bound_name lbl) pre"
    and pre_types: "\<forall>ie \<in> set pre. \<exists>t. get_operator_type (snd ie) = Inr (PStr t)" by blast
  have "\<exists>post. subseq post (List.enumerate 0 (entries_of config ''postprocess''))
          \<and> (pt \<noteq> POSTPROCESS \<longrightarrow> post = [])
          \<and> map op_name post_ops = map (bound_name lbl) post
          \<and> (\<forall>ie \<in> set post. \<exists>t. get_operator_type (snd ie) = Inr (PStr t))"
  proof (cases "pt = POSTPROCESS")
    case True
    with rest have "built_from reg config pt lbl ''postprocess'' None None
                   (start\<lparr>postprocess_only := True\<rparr>) = Inr (post_ops, post_state)" by simp
    from built_from_names [OF this] True show ?thesis by blast
  next
    case False
    with rest have "post_ops = []" by simp
    then show ?thesis by (intro exI [of _ "[]"]) simp
  qed
  then obtain post where
    post: "subseq post (List.enumerate 0 (entries_of config ''postprocess''))"
    and post_nil: "pt \<noteq> POSTPROCESS \<longrightarrow> post = []"
    and post_names: "map op_name post_ops = map (bound_name lbl) post"
    and post_types: "\<forall>ie \<in> set post. \<exists>t. get_operator_type (snd ie) = Inr (PStr t)" by blast
  have rv: "map op_name (rev main) = map (bound_name lbl) (rev pre)"
    using pre_names by (metis rev_map)
  have names: "map op_name (p_ops p) =
             map (bound_name lbl) ((if pt = POSTPROCESS then rev pre else pre) @ post)"
    using rest pre_names rv post_names post_nil by (cases "pt = POSTPROCESS") simp_all
  have d1: "\<forall>ie \<in> set (pre @ post). entry_name lbl (snd ie) = None \<longrightarrow>
               bound_name lbl ie =
                 PStr ((case get_operator_type (snd ie) of Inr (PStr t) \<Rightarrow> t | _ \<Rightarrow> [])
                       @ ''_'' @ show_nat (fst ie))"
    by (simp add: bound_name_def default_name_def)
  have d2: "\<forall>ie \<in> set (pre @ post). \<forall>v. entry_name lbl (snd ie) = Some v \<longrightarrow> bound_name lbl ie = v"
    by (simp add: bound_name_def)
  have u1: "distinct (map (bound_name lbl) (filter (\<lambda>ie. entry_name lbl (snd ie) = None) pre))"
    using selected_default_names [OF pre] by (rule unnamed_distinct)
  have u2: "distinct (map (bound_name lbl) (filter (\<lambda>ie. entry_name lbl (snd ie) = None) post))"
    using selected_default_names [OF post] by (rule unnamed_distinct)
  have cross: "\<forall>x \<in> set pre. \<forall>y \<in> set post. default_name x = default_name y \<longrightarrow>
               fst x = fst y \<and> get_operator_type (snd x) = get_operator_type (snd y)"
  proof (intro ballI impI)
    fix x y assume x: "x \<in> set pre" and y: "y \<in> set post" and eq: "default_name x = default_name y"
    from pre_types x obtain t where t: "get_operator_type (snd x) = Inr (PStr t)" by blast
    from post_types y obtain t' where t': "get_operator_type (snd y) = Inr (PStr t')" by blast
    from default_name_eq [OF t t' eq]
    show "fst x = fst y \<and> get_operator_type (snd x) = get_operator_type (snd y)" .
  qed
  from pre post post_nil names d1 d2 u1 u2 cross show ?thesis
    by - (intro exI [of _ pre] exI [of _ post] conjI; assumption)
qed

text \<open>
  C9 as stated fails: nothing checks explicit names, so two entries named \<open>tok\<close> give two
  operators of that name.
\<close>

theorem operator_names_not_unique:
  "\<exists>p. Pipeline example_registry named_config TRAINING None LNone None = Inr p
       \<and> map op_name (p_ops p) = [PStr ''tok'', PStr ''tok'']
       \<and> \<not> distinct (map op_name (p_ops p))"
  by (simp add: example_defs named_config_def)

lemma mixed_pipeline:
  "\<exists>p. Pipeline example_registry mixed_config POSTPROCESS None LNone None = Inr p
       \<and> map op_name (p_ops p) =
           [PStr ''tokenization_2'', PStr ''align_1'', PStr ''tok'', PStr ''tokenization_0'']"
  by (simp add: example_defs mixed_config_def show_nat.simps)

theorem default_operator_names_witness:
  "\<exists>p pre post.
       Pipeline example_registry mixed_config POSTPROCESS None LNone None = Inr p
     \<and> map op_name (p_ops p) =
         [PStr ''tokenization_2'', PStr ''align_1'', PStr ''tok'', PStr ''tokenization_0'']
     \<and> subseq pre (List.enumerate 0 (entries_of mixed_config ''preprocess''))
     \<and> subseq post (List.enumerate 0 (entries_of mixed_config ''postprocess''))
     \<and> map op_name (p_ops p) = map (bound_name LNone) (rev pre @ post)
     \<and> distinct (map (bound_name LNone) (filter (\<lambda>ie. entry_name LNone (snd ie) = None) pre))
     \<and> distinct (map (bound_name LNone) (filter (\<lambda>ie. entry_name LNone (snd ie) = None) post))
     \<and> list_all (\<lambda>x. list_all (\<lambda>y. default_name x = default_name y \<longrightarrow>
                                   fst x = fst y
                                 \<and> get_operator_type (snd x) = get_operator_type (snd y)) post) pre"
proof -
  from mixed_pipeline obtain p where
    p: "Pipeline example_registry mixed_config POSTPROCESS None LNone None = Inr p"
    and names: "map op_name (p_ops p) =
         [PStr ''tokenization_2'', PStr ''align_1'', PStr ''tok'', PStr ''tokenization_0'']"
    by (elim exE conjE)
  from default_operator_names [OF p] obtain pre post where
    a: "subseq pre (List.enumerate 0 (entries_of mixed_config ''preprocess''))"
    and b: "subseq post (List.enumerate 0 (entries_of mixed_config ''postprocess''))"
    and c: "map op_name (p_ops p) =
             map (bound_name LNone) ((if POSTPROCESS = POSTPROCESS then rev pre else pre) @ post)"
    and d: "distinct (map (bound_name LNone) (filter (\<lambda>ie. entry_name LNone (snd ie) = None) pre))"
    and e: "distinct (map (bound_name LNone) (filter (\<lambda>ie. entry_name LNone (snd ie) = None) post))"
    and f: "\<forall>x \<in> set pre. \<forall>y \<in> set post. default_name x = default_name y \<longrightarrow>
               fst x = fst y \<and> get_operator_type (snd x) = get_operator_type (snd y)"
    by (elim exE conjE)
  from c have c': "map op_name (p_ops p) = map (bound_name LNone) (rev pre @ post)" by simp
  from f have f': "list_all (\<lambda>x. list_all (\<lambda>y. default_name x = default_name y \<longrightarrow>
                                   fst x = fst y
                                 \<and> get_operator_type (snd x) = get_operator_type (snd y)) post) pre"
    by (simp add: list_all_iff)
  from p names a b c' d e f' show ?thesis
    by - (intro exI [of _ p] exI [of _ pre] exI [of _ post] conjI; assumption)
qed

section \<open>The filter operator\<close>






section \<open>Runtime options\<close>



lemma operator_call_supporting [simp]: "operator_call (supporting op) = operator_call op"
  by (auto simp: operator_call_def supporting_def fun_eq_iff)






lemmas example_call_defs =
  example_pipeline_def plain_op_def shift_op_def example_meta_def Pipeline_call_def
  op_options_of_def operator_call_def


lemma op_options_of_delete:
  assumes "hashable name" "name \<noteq> PStr k"
  shows "op_options_of (Some (AList.delete k d)) name = op_options_of (Some d) name"
proof (cases name)
  case (PStr s)
  with assms have sk: "s \<noteq> k" by simp
  then have m: "map_of (AList.delete k d) s = map_of d s" by simp
  show ?thesis
  proof (cases "AList.delete k d = []")
    case True
    with m have "map_of d s = None" by simp
    with True PStr show ?thesis by (cases d) (simp_all add: op_options_of_def)
  next
    case False
    then have "d \<noteq> []" by auto
    with False PStr m show ?thesis
      by (cases d; cases "AList.delete k d") (simp_all add: op_options_of_def)
  qed
qed (use assms in \<open>auto simp: op_options_of_def split: list.splits\<close>)

lemma apply_ops_delete:
  assumes "\<forall>op \<in> set ops. hashable (op_name op) \<and> op_name op \<noteq> PStr k"
  shows "apply_ops clock (Some (AList.delete k d)) ops n prof b = apply_ops clock (Some d) ops n prof b"
  using assms
proof (induction ops arbitrary: n prof b)
  case Nil
  then show ?case by simp
next
  case (Cons x xs)
  then have "op_options_of (Some (AList.delete k d)) (op_name x) = op_options_of (Some d) (op_name x)"
    by (simp add: op_options_of_delete)
  moreover from Cons have
    "\<And>n prof b. apply_ops clock (Some (AList.delete k d)) xs n prof b = apply_ops clock (Some d) xs n prof b"
    by simp
  ultimately show ?case by (simp split: sum.splits option.splits)
qed

text \<open>
  C10. An entry of the options mapping whose key is not the name of any operator of the
  pipeline is ignored: the call returns what it returns without the entry, the same batch
  and metadata or the same error. Operator names are values that can key a dict.
\<close>

theorem unknown_option_key_ignored:
  assumes "\<forall>op \<in> set (p_ops self). hashable (op_name op) \<and> op_name op \<noteq> PStr k"
  shows "Pipeline_call finalize clock self tu_batch (Some d) =
         Pipeline_call finalize clock self tu_batch (Some (AList.delete k d))"
  using apply_ops_delete [OF assms] by (simp add: Pipeline_call_def)


theorem unknown_option_key_ignored_witness:
  "list_all (\<lambda>op. hashable (op_name op) \<and> op_name op \<noteq> PStr ''unknown'') (p_ops example_pipeline)
   \<and> Pipeline_call (\<lambda>process_type tu. Inr tu) (\<lambda>n. 0) example_pipeline ([1, 2], example_meta)
        (Some [(''unknown'', PInt 9), (''shift_1'', PInt 5)]) =
      Pipeline_call (\<lambda>process_type tu. Inr tu) (\<lambda>n. 0) example_pipeline ([1, 2], example_meta)
        (Some [(''shift_1'', PInt 5)])
   \<and> Pipeline_call (\<lambda>process_type tu. Inr tu) (\<lambda>n. 0) example_pipeline ([1, 2], example_meta)
        (Some [(''unknown'', PInt 9), (''shift_1'', PInt 5)]) = Inr ([6, 7], example_meta)"
proof -
  have h: "\<forall>op \<in> set (p_ops example_pipeline). hashable (op_name op) \<and> op_name op \<noteq> PStr ''unknown''"
    by (simp add: example_pipeline_def plain_op_def shift_op_def)
  from unknown_option_key_ignored [OF h, of "\<lambda>process_type tu. Inr tu" "\<lambda>n. 0"
      "([1, 2], example_meta)" "[(''unknown'', PInt 9), (''shift_1'', PInt 5)]"]
  have a: "Pipeline_call (\<lambda>process_type tu. Inr tu) (\<lambda>n. 0) example_pipeline ([1, 2], example_meta)
        (Some [(''unknown'', PInt 9), (''shift_1'', PInt 5)]) =
      Pipeline_call (\<lambda>process_type tu. Inr tu) (\<lambda>n. 0) example_pipeline ([1, 2], example_meta)
        (Some [(''shift_1'', PInt 5)])"
    by simp
  have b: "Pipeline_call (\<lambda>process_type tu. Inr tu) (\<lambda>n. 0) example_pipeline ([1, 2], example_meta)
        (Some [(''shift_1'', PInt 5)]) = Inr ([6, 7], example_meta)"
    by (simp add: example_call_defs)
  from h a b show ?thesis by (simp add: list_all_iff)
qed

section \<open>The shared state\<close>

lemmas shared_defs =
  example_ext_def shared_config_def align_cls_def table_cls_def example_cls_def
  SharedState_def SharedState_get_def start_manager_def all_builders_of_def shared_instance_def
  operator_info_def get_operator_params_def dict_get_def state_of_def Let_def

lemma example_shared_state:
  "SharedState example_ext shared_config TRAINING None 0 = Inr default_state"
  by (simp add: shared_defs default_state_def)

text \<open>
  C8 (amended). A call of \<open>SharedState.get\<close> with an override label that is a mapping does not
  raise an error and returns \<open>None\<close>, that is no shared state, whatever the default shared
  state holds; the cache is left as it was.
\<close>

theorem mapping_label_returns_none:
  "SharedState_get ext self (LDict d) = Inr (None, self)"
  by (simp add: SharedState_get_def)

text \<open>
  C8 as stated fails: with an operator that declares a shared builder, the default shared
  state (what \<open>get()\<close> returns) is a mapping with that operator's instance, while a mapping
  label gets \<open>None\<close>.
\<close>

theorem mapping_label_not_default_state:
  "SharedState example_ext shared_config TRAINING None 0 = Inr default_state
   \<and> SharedState_get example_ext default_state LNone = Inr (Some 1, default_state)
   \<and> state_of default_state (Some 1) = Some [(1, [(''table'', 0)])]
   \<and> SharedState_get example_ext default_state (LDict [(''A'', PNone)]) = Inr (None, default_state)
   \<and> state_of default_state None = None"
  by (simp add: example_shared_state)
     (simp add: default_state_def SharedState_get_def example_ext_def state_of_def)







section \<open>The parallel run\<close>

lemma drain_ready_spec:
  assumes "drain_ready ready waited n results consumed lens = ((n', results', consumed', lens'), failure)"
  shows "map Inr consumed @ results =
           map Inr consumed' @ (case failure of None \<Rightarrow> [] | Some e \<Rightarrow> [Inl e]) @ results'"
    and "length results' \<le> length results"
    and "waited \<Longrightarrow> results \<noteq> [] \<Longrightarrow> length results' < length results"
    and "set lens' \<subseteq> set lens \<union> {m. m < length results}"
  using assms
proof (induction results arbitrary: waited n consumed lens)
  case Nil
  { case 1 then show ?case by simp }
  { case 2 then show ?case by simp }
  { case 3 then show ?case by simp }
  { case 4 then show ?case by simp }
next
  case (Cons r results)
  { case 1
    show ?case
    proof (cases "waited \<or> ready n")
      case False
      with 1 show ?thesis by auto
    next
      case True
      show ?thesis
      proof (cases r)
        case (Inl e)
        with True 1 show ?thesis by auto
      next
        case (Inr out)
        with True 1 have
          "drain_ready ready False (Suc n) results (consumed @ [out]) (lens @ [length results]) =
             ((n', results', consumed', lens'), failure)" by simp
        from Cons.IH(1) [OF this] Inr show ?thesis by simp
      qed
    qed }
  { case 2
    show ?case
    proof (cases "waited \<or> ready n")
      case False
      with 2 show ?thesis by auto
    next
      case True
      show ?thesis
      proof (cases r)
        case (Inl e)
        with True 2 show ?thesis by auto
      next
        case (Inr out)
        with True 2 have
          "drain_ready ready False (Suc n) results (consumed @ [out]) (lens @ [length results]) =
             ((n', results', consumed', lens'), failure)" by simp
        from Cons.IH(2) [OF this] show ?thesis by simp
      qed
    qed }
  { case 3
    show ?case
    proof (cases r)
      case (Inl e)
      with 3 show ?thesis by auto
    next
      case (Inr out)
      with 3 have
        "drain_ready ready False (Suc n) results (consumed @ [out]) (lens @ [length results]) =
           ((n', results', consumed', lens'), failure)" by simp
      from Cons.IH(2) [OF this] show ?thesis by simp
    qed }
  { case 4
    show ?case
    proof (cases "waited \<or> ready n")
      case False
      with 4 show ?thesis by auto
    next
      case True
      show ?thesis
      proof (cases r)
        case (Inl e)
        with True 4 show ?thesis by auto
      next
        case (Inr out)
        with True 4 have
          "drain_ready ready False (Suc n) results (consumed @ [out]) (lens @ [length results]) =
             ((n', results', consumed', lens'), failure)" by simp
        from Cons.IH(4) [OF this] show ?thesis by auto
      qed
    qed }
qed

lemma drain_all_spec:
  assumes "drain_all results consumed lens = ((results', consumed', lens'), failure)"
  shows "map Inr consumed @ results =
           map Inr consumed' @ (case failure of None \<Rightarrow> [] | Some e \<Rightarrow> [Inl e]) @ results'"
    and "failure = None \<Longrightarrow> results' = []"
    and "set lens' \<subseteq> set lens \<union> {m. m < length results}"
  using assms
proof (induction results arbitrary: consumed lens)
  case Nil
  { case 1 then show ?case by simp }
  { case 2 then show ?case by simp }
  { case 3 then show ?case by simp }
next
  case (Cons r results)
  { case 1
    show ?case
    proof (cases r)
      case (Inl e)
      with 1 show ?thesis by auto
    next
      case (Inr out)
      with 1 have "drain_all results (consumed @ [out]) (lens @ [length results]) =
          ((results', consumed', lens'), failure)" by simp
      from Cons.IH(1) [OF this] Inr show ?thesis by simp
    qed }
  { case 2
    show ?case
    proof (cases r)
      case (Inl e)
      with 2 show ?thesis by auto
    next
      case (Inr out)
      with 2 have "drain_all results (consumed @ [out]) (lens @ [length results]) =
          ((results', consumed', lens'), failure)" by simp
      from Cons.IH(2) [OF 2(1) this] show ?thesis .
    qed }
  { case 3
    show ?case
    proof (cases r)
      case (Inl e)
      with 3 show ?thesis by auto
    next
      case (Inr out)
      with 3 have "drain_all results (consumed @ [out]) (lens @ [length results]) =
          ((results', consumed', lens'), failure)" by simp
      from Cons.IH(3) [OF this] show ?thesis by auto
    qed }
qed

lemma submit_spec:
  assumes "submit ext sched self exit_step options k tu_batch rs = Inr rs1"
  shows "\<exists>result. rs_results rs1 = rs_results rs @ [result]
           \<and> rs_submitted rs1 = rs_submitted rs @ [result]
           \<and> rs_consumed rs1 = rs_consumed rs
           \<and> rs_outstanding rs1 = rs_outstanding rs @ [Suc (length (rs_results rs))]"
  using assms by (auto simp: submit_def Let_def split: sum.splits prod.splits)

lemma submit_batches_spec:
  assumes "submit_batches ext sched self exit_step options k batches rs = (rs', failure)"
    and "0 < num_workers self"
    and "rs_submitted rs = map Inr (rs_consumed rs) @ rs_results rs"
    and "length (rs_results rs) < 2 * num_workers self"
    and "\<forall>m \<in> set (rs_outstanding rs). m \<le> 2 * num_workers self"
    and "length (rs_submitted rs) = k"
    and "drop k loader = batches" and "k \<le> length loader"
  shows "run_ok self loader rs' failure
       \<and> (failure = None \<longrightarrow> rs_submitted rs' = map Inr (rs_consumed rs') @ rs_results rs'
              \<and> length (rs_submitted rs') = length loader
              \<and> length (rs_results rs') < 2 * num_workers self)"
  using assms
proof (induction batches arbitrary: k rs)
  case Nil
  then have "rs' = rs" "failure = None" "k = length loader" by simp_all
  with Nil show ?case by (simp add: run_ok_def)
next
  case (Cons b bs)
  let ?N = "num_workers self"
  from Cons.prems(7) have kl: "k < length loader" and bk: "loader ! k = b"
    and dr: "drop (Suc k) loader = bs"
    by (metis drop_eq_Nil list.distinct(1) not_le, metis nth_via_drop,
        metis drop_Suc drop_tl list.sel(3) tl_drop)
  show ?case
  proof (cases "submit ext sched self exit_step options k b rs")
    case (Inl e)
    with Cons.prems(1) have "rs' = rs" "failure = Some e" by simp_all
    with Cons.prems show ?thesis by (auto simp: run_ok_def)
  next
    case (Inr rs1)
    from submit_spec [OF Inr] obtain result where
      r1: "rs_results rs1 = rs_results rs @ [result]" and
      s1: "rs_submitted rs1 = rs_submitted rs @ [result]" and
      c1: "rs_consumed rs1 = rs_consumed rs" and
      o1: "rs_outstanding rs1 = rs_outstanding rs @ [Suc (length (rs_results rs))]" by blast
    obtain q f where
      dq: "drain_ready (ready_now sched) (length (rs_results rs1) = 2 * ?N) (rs_polls rs1)
             (rs_results rs1) (rs_consumed rs1) (rs_outstanding rs1) = (q, f)"
      by (cases "drain_ready (ready_now sched) (length (rs_results rs1) = 2 * ?N) (rs_polls rs1)
             (rs_results rs1) (rs_consumed rs1) (rs_outstanding rs1)")
    obtain n results2 consumed2 lens2 where q: "q = (n, results2, consumed2, lens2)"
      by (cases q)
    note dr2 = dq [unfolded q]
    let ?rs2 = "rs1\<lparr>rs_results := results2, rs_consumed := consumed2, rs_polls := n,
                     rs_outstanding := lens2\<rparr>"
    note d = drain_ready_spec [OF dr2]
    have sub2: "rs_submitted ?rs2 =
        map Inr consumed2 @ (case f of None \<Rightarrow> [] | Some e \<Rightarrow> [Inl e]) @ results2"
      using d(1) Cons.prems(3) by (simp add: s1 r1 c1)
    have log2: "\<forall>m \<in> set lens2. m \<le> 2 * ?N"
      using d(4) Cons.prems(4,5) by (auto simp: o1 r1)
    have len2: "f = None \<Longrightarrow> length results2 < 2 * ?N"
    proof (cases "length (rs_results rs1) = 2 * ?N")
      case True
      with d(3) r1 show ?thesis by auto
    next
      case False
      with Cons.prems(4) have "length (rs_results rs1) < 2 * ?N" by (simp add: r1)
      with d(2) show ?thesis by simp
    qed
    have k2: "length (rs_submitted ?rs2) = Suc k" using Cons.prems(6) by (simp add: s1)
    show ?thesis
    proof (cases f)
      case (Some e)
      with Cons.prems(1) Inr dr2 have "rs' = ?rs2" "failure = Some e" by simp_all
      with sub2 log2 k2 kl Some show ?thesis
        by (auto simp: run_ok_def)
    next
      case None
      with Cons.prems(1) Inr dr2 have
        rec: "submit_batches ext sched self exit_step options (Suc k) bs ?rs2 = (rs', failure)"
        by simp
      have "rs_submitted ?rs2 = map Inr (rs_consumed ?rs2) @ rs_results ?rs2"
        using sub2 None by simp
      moreover have "length (rs_results ?rs2) < 2 * ?N" using len2 None by simp
      moreover have "\<forall>m \<in> set (rs_outstanding ?rs2). m \<le> 2 * ?N" using log2 by simp
      moreover have "Suc k \<le> length loader" using kl by simp
      ultimately show ?thesis
        using Cons.IH [OF rec Cons.prems(2) _ _ _ k2 dr] by blast
    qed
  qed
qed

lemma process_parallel_spec:
  assumes "process_parallel ext sched self shared loader exit_step options = (rs, failure)"
    and "0 < num_workers self"
  shows "run_ok self loader rs failure
       \<and> (failure = None \<longrightarrow> rs_submitted rs = map Inr (rs_consumed rs)
              \<and> length (rs_consumed rs) = length loader)"
proof -
  let ?rs0 = "\<lparr>rs_shared = shared, rs_workers = (\<lambda>w. None), rs_results = [],
               rs_consumed = [], rs_polls = 0, rs_submitted = [], rs_outstanding = [0]\<rparr>
              :: ('a, 'b, 'c) run_state"
  obtain rs1 f1 where sb: "submit_batches ext sched self exit_step options 0 loader ?rs0 = (rs1, f1)"
    by (cases "submit_batches ext sched self exit_step options 0 loader ?rs0")
  have spec: "run_ok self loader rs1 f1
       \<and> (f1 = None \<longrightarrow> rs_submitted rs1 = map Inr (rs_consumed rs1) @ rs_results rs1
              \<and> length (rs_submitted rs1) = length loader
              \<and> length (rs_results rs1) < 2 * num_workers self)"
    by (rule submit_batches_spec [OF sb assms(2)]) (use assms(2) in simp_all)
  show ?thesis
  proof (cases f1)
    case (Some e)
    with assms(1) sb have "rs = rs1" "failure = Some e" by (simp_all add: process_parallel_def)
    with spec Some show ?thesis by simp
  next
    case None
    obtain q f where
      dq: "drain_all (rs_results rs1) (rs_consumed rs1) (rs_outstanding rs1) = (q, f)"
      by (cases "drain_all (rs_results rs1) (rs_consumed rs1) (rs_outstanding rs1)")
    obtain results consumed lens where q: "q = (results, consumed, lens)"
      by (cases q)
    note da = dq [unfolded q]
    with assms(1) sb None have
      rs: "rs = rs1\<lparr>rs_results := results, rs_consumed := consumed, rs_outstanding := lens\<rparr>"
      and fl: "failure = f" by (simp_all add: process_parallel_def)
    note d = drain_all_spec [OF da]
    from spec None have s1: "rs_submitted rs1 = map Inr (rs_consumed rs1) @ rs_results rs1"
      and l1: "length (rs_submitted rs1) = length loader"
      and b1: "length (rs_results rs1) < 2 * num_workers self" by blast+
    from spec have ok1: "run_ok self loader rs1 f1" by simp
    have sub: "rs_submitted rs =
        map Inr consumed @ (case f of None \<Rightarrow> [] | Some e \<Rightarrow> [Inl e]) @ results"
      using d(1) s1 by (simp add: rs)
    have log: "\<forall>m \<in> set lens. m \<le> 2 * num_workers self"
      using d(3) b1 ok1 by (auto simp: run_ok_def)
    have ok: "run_ok self loader rs failure"
      unfolding run_ok_def
    proof (intro conjI)
      show "\<exists>popped. rs_submitted rs = map Inr (rs_consumed rs) @ popped @ rs_results rs
          \<and> (popped = [] \<or> (\<exists>e. popped = [Inl e] \<and> failure = Some e))"
        using sub fl by (cases f) (auto simp: rs)
      show "\<forall>m \<in> set (rs_outstanding rs). m \<le> 2 * num_workers self"
        using log by (simp add: rs)
      show "length (rs_submitted rs) \<le> length loader" using l1 by (simp add: rs)
    qed
    have "rs_submitted rs = map Inr (rs_consumed rs) \<and> length (rs_consumed rs) = length loader"
      if "failure = None"
    proof -
      from that fl have fn: "f = None" by simp
      with d(2) have "results = []" by simp
      with sub fn have e: "rs_submitted rs = map Inr consumed" by simp
      have "rs_submitted rs = rs_submitted rs1" by (simp add: rs)
      with e l1 have "length (map Inr consumed :: (exn + 'c list \<times> batch_meta) list) = length loader"
        by simp
      then have "length consumed = length loader" by simp
      with e show ?thesis by (simp add: rs)
    qed
    with ok show ?thesis by blast
  qed
qed


lemma task_inputs_length:
  "length (task_inputs ext sched self exit_step options k batches shared workers) \<le> length batches"
  by (induction batches arbitrary: k shared workers)
     (auto simp: Let_def split: sum.splits prod.splits)

lemma submit_task:
  assumes "submit ext sched self exit_step options k tu_batch rs = Inr rs1"
  shows "\<exists>r shared'.
           SharedState_get ext (rs_shared rs) (get_corpus_label tu_batch) = Inr (r, shared')
         \<and> rs_shared rs1 = shared'
         \<and> rs_workers rs1 =
             (rs_workers rs)(worker_of sched k :=
               snd (process_batch_on_worker ext (clock_of sched k)
                      (worker_name sched (worker_of sched k)) (rs_workers rs (worker_of sched k))
                      tu_batch options (proc_config self) (pipeline_type self) exit_step
                      (get_corpus_label tu_batch) (state_of shared' r)))
         \<and> rs_submitted rs1 =
             rs_submitted rs @
               [task_result ext sched self exit_step options k tu_batch
                  (rs_workers rs (worker_of sched k)) (state_of shared' r)]"
proof -
  from assms obtain r shared' where
    g: "SharedState_get ext (rs_shared rs) (get_corpus_label tu_batch) = Inr (r, shared')"
    by (auto simp: submit_def Let_def split: sum.splits)
  from assms g show ?thesis
    by (auto simp: submit_def Let_def task_result_def split: prod.splits)
qed

lemma submit_batches_tasks:
  assumes "submit_batches ext sched self exit_step options k batches rs = (rs', failure)"
  shows "\<exists>more. rs_submitted rs' = rs_submitted rs @ more
       \<and> (\<forall>j < length more.
             j < length (task_inputs ext sched self exit_step options k batches (rs_shared rs) (rs_workers rs))
           \<and> more ! j =
               task_result ext sched self exit_step options (k + j) (batches ! j)
                 (fst (task_inputs ext sched self exit_step options k batches (rs_shared rs) (rs_workers rs) ! j))
                 (snd (task_inputs ext sched self exit_step options k batches (rs_shared rs) (rs_workers rs) ! j)))"
  using assms
proof (induction batches arbitrary: k rs)
  case Nil
  then show ?case by simp
next
  case (Cons b bs)
  show ?case
  proof (cases "submit ext sched self exit_step options k b rs")
    case (Inl e)
    with Cons.prems have "rs' = rs" by simp
    then show ?thesis by simp
  next
    case (Inr rs1)
    from submit_task [OF Inr] obtain r shared' where
      g: "SharedState_get ext (rs_shared rs) (get_corpus_label b) = Inr (r, shared')" and
      sh1: "rs_shared rs1 = shared'" and
      w1: "rs_workers rs1 =
             (rs_workers rs)(worker_of sched k :=
               snd (process_batch_on_worker ext (clock_of sched k)
                      (worker_name sched (worker_of sched k)) (rs_workers rs (worker_of sched k))
                      b options (proc_config self) (pipeline_type self) exit_step
                      (get_corpus_label b) (state_of shared' r)))" and
      s1: "rs_submitted rs1 =
             rs_submitted rs @
               [task_result ext sched self exit_step options k b
                  (rs_workers rs (worker_of sched k)) (state_of shared' r)]"
      by blast
    let ?res = "task_result ext sched self exit_step options k b
                  (rs_workers rs (worker_of sched k)) (state_of shared' r)"
    let ?TI' = "task_inputs ext sched self exit_step options (Suc k) bs (rs_shared rs1) (rs_workers rs1)"
    have ti: "task_inputs ext sched self exit_step options k (b # bs) (rs_shared rs) (rs_workers rs) =
                (rs_workers rs (worker_of sched k), state_of shared' r) # ?TI'"
      using g by (simp add: Let_def sh1 w1)
    obtain q f where
      dq: "drain_ready (ready_now sched) (length (rs_results rs1) = 2 * num_workers self) (rs_polls rs1)
             (rs_results rs1) (rs_consumed rs1) (rs_outstanding rs1) = (q, f)"
      by (cases "drain_ready (ready_now sched) (length (rs_results rs1) = 2 * num_workers self) (rs_polls rs1)
             (rs_results rs1) (rs_consumed rs1) (rs_outstanding rs1)")
    obtain n results2 consumed2 lens2 where q: "q = (n, results2, consumed2, lens2)"
      by (cases q)
    note dr2 = dq [unfolded q]
    let ?rs2 = "rs1\<lparr>rs_results := results2, rs_consumed := consumed2, rs_polls := n,
                     rs_outstanding := lens2\<rparr>"
    show ?thesis
    proof (cases f)
      case (Some e)
      with Cons.prems Inr dr2 have "rs' = ?rs2" by simp
      then have "rs_submitted rs' = rs_submitted rs @ [?res]" by (simp add: s1)
      then show ?thesis unfolding ti by (intro exI [of _ "[?res]"]) simp
    next
      case None
      with Cons.prems Inr dr2 have
        rec: "submit_batches ext sched self exit_step options (Suc k) bs ?rs2 = (rs', failure)"
        by simp
      from Cons.IH [OF rec] obtain more where
        m1: "rs_submitted rs' = rs_submitted ?rs2 @ more" and
        m2: "\<forall>j < length more. j < length ?TI'
              \<and> more ! j = task_result ext sched self exit_step options (Suc k + j) (bs ! j)
                            (fst (?TI' ! j)) (snd (?TI' ! j))"
        by auto
      have "rs_submitted rs' = rs_submitted rs @ (?res # more)" using m1 by (simp add: s1)
      moreover have "\<forall>j < length (?res # more).
          j < length ((rs_workers rs (worker_of sched k), state_of shared' r) # ?TI')
          \<and> (?res # more) ! j =
               task_result ext sched self exit_step options (k + j) ((b # bs) ! j)
                 (fst (((rs_workers rs (worker_of sched k), state_of shared' r) # ?TI') ! j))
                 (snd (((rs_workers rs (worker_of sched k), state_of shared' r) # ?TI') ! j))"
      proof (intro allI impI)
        fix j assume "j < length (?res # more)"
        then show "j < length ((rs_workers rs (worker_of sched k), state_of shared' r) # ?TI')
          \<and> (?res # more) ! j =
               task_result ext sched self exit_step options (k + j) ((b # bs) ! j)
                 (fst (((rs_workers rs (worker_of sched k), state_of shared' r) # ?TI') ! j))
                 (snd (((rs_workers rs (worker_of sched k), state_of shared' r) # ?TI') ! j))"
          using m2 by (cases j) simp_all
      qed
      ultimately show ?thesis unfolding ti by blast
    qed
  qed
qed

lemma process_parallel_tasks:
  assumes "process_parallel ext sched self shared loader exit_step options = (rs, failure)"
  shows "\<forall>j < length (rs_submitted rs).
           j < length (run_inputs ext sched self shared loader exit_step options)
         \<and> rs_submitted rs ! j =
             task_result ext sched self exit_step options j (loader ! j)
               (fst (run_inputs ext sched self shared loader exit_step options ! j))
               (snd (run_inputs ext sched self shared loader exit_step options ! j))"
proof -
  let ?rs0 = "\<lparr>rs_shared = shared, rs_workers = (\<lambda>w. None), rs_results = [],
               rs_consumed = [], rs_polls = 0, rs_submitted = [], rs_outstanding = [0]\<rparr>
              :: ('a, 'b, 'c) run_state"
  obtain rs1 f1 where sb: "submit_batches ext sched self exit_step options 0 loader ?rs0 = (rs1, f1)"
    by (cases "submit_batches ext sched self exit_step options 0 loader ?rs0")
  from assms sb have "rs_submitted rs = rs_submitted rs1"
    by (auto simp: process_parallel_def split: option.splits prod.splits)
  with submit_batches_tasks [OF sb] show ?thesis
    by (simp add: run_inputs_def)
qed







lemmas run_defs =
  example_ext_def worker_config_def example_sched_def example_proc_def worker_shared_def
  corpus_batch_def failing_loader_def example_loader_def example_cls_def align_cls_def table_cls_def
  process_parallel_def submit_def get_corpus_label_def get_corpus_name_def
  process_batch_on_worker_def process_batch_def Pipeline_call_def operator_call_def
  op_options_of_def worker_message_def
  SharedState_def SharedState_get_def start_manager_def all_builders_of_def shared_instance_def
  state_of_def
  Pipeline_def initial_state_def vocabulary_path_def build_pipeline_def add_op_list_def
  operator_info_def get_operator_params_def build_operator_def add_lang_info_def dict_get_def
  digit_char_def show_nat.simps Let_def

lemma example_worker_shared:
  "SharedState example_ext worker_config INFERENCE None 1 = Inr worker_shared"
  by (simp add: run_defs)


lemma example_run:
  "\<exists>rs. process_parallel example_ext example_sched example_proc worker_shared example_loader
          None None = (rs, None)
        \<and> rs_outstanding rs = [0, 1, 2, 1, 2, 1, 0]
        \<and> map fst (rs_consumed rs) = [[1, 2], [3], [4]]"
  by (simp add: run_defs)




text \<open>
  C2. In every run of the parallel branch with at least one worker, whatever the loader's
  batches, the answers of \<open>ready()\<close> and the assignment of tasks to workers: the deque of
  outstanding results never holds more than twice the worker count; the consumer is called
  with the results of the handles in submission order, without gap (a prefix of the handles
  submitted); there is one handle for each batch submitted, the \<open>j\<close>-th handle holding what
  \<open>_process_batch_on_worker\<close> returns or raises on the \<open>j\<close>-th batch of the loader, in the
  worker that takes it, with the pipeline that worker then holds and the shared state got for
  the batch's label; so the \<open>j\<close>-th call of the consumer is with the outputs of the \<open>j\<close>-th
  batch of the loader; and a run that ends without exception has called the consumer with the
  result of every batch of the loader.
\<close>

theorem parallel_run_bounded_and_ordered:
  assumes "0 < num_workers self"
    and "process_parallel ext sched self shared loader exit_step options = (rs, failure)"
  shows "(\<forall>m \<in> set (rs_outstanding rs). m \<le> 2 * num_workers self)
       \<and> prefix (map Inr (rs_consumed rs)) (rs_submitted rs)
       \<and> length (rs_submitted rs) \<le> length loader
       \<and> (\<forall>j < length (rs_submitted rs).
            j < length (run_inputs ext sched self shared loader exit_step options)
          \<and> rs_submitted rs ! j =
              task_result ext sched self exit_step options j (loader ! j)
                (fst (run_inputs ext sched self shared loader exit_step options ! j))
                (snd (run_inputs ext sched self shared loader exit_step options ! j)))
       \<and> (\<forall>j < length (rs_consumed rs).
            Inr (rs_consumed rs ! j) =
              task_result ext sched self exit_step options j (loader ! j)
                (fst (run_inputs ext sched self shared loader exit_step options ! j))
                (snd (run_inputs ext sched self shared loader exit_step options ! j)))
       \<and> (failure = None \<longrightarrow> map Inr (rs_consumed rs) = rs_submitted rs
              \<and> length (rs_consumed rs) = length loader)"
proof -
  note spec = process_parallel_spec [OF assms(2,1)]
  note link = process_parallel_tasks [OF assms(2)]
  from spec have bound: "\<forall>m \<in> set (rs_outstanding rs). m \<le> 2 * num_workers self"
    and len: "length (rs_submitted rs) \<le> length loader"
    by (simp_all add: run_ok_def)
  from spec have pre: "prefix (map Inr (rs_consumed rs)) (rs_submitted rs)"
    by (auto simp: run_ok_def prefix_def)
  from spec have fin: "failure = None \<longrightarrow> map Inr (rs_consumed rs) = rs_submitted rs
              \<and> length (rs_consumed rs) = length loader" by simp
  have con: "\<forall>j < length (rs_consumed rs).
            Inr (rs_consumed rs ! j) =
              task_result ext sched self exit_step options j (loader ! j)
                (fst (run_inputs ext sched self shared loader exit_step options ! j))
                (snd (run_inputs ext sched self shared loader exit_step options ! j))"
  proof (intro allI impI)
    fix j assume j: "j < length (rs_consumed rs)"
    from pre obtain rest where r: "rs_submitted rs = map Inr (rs_consumed rs) @ rest"
      by (auto simp: prefix_def)
    from j have "rs_submitted rs ! j = Inr (rs_consumed rs ! j)"
      unfolding r by (simp add: nth_append)
    moreover from j have "j < length (rs_submitted rs)" unfolding r by simp
    ultimately show "Inr (rs_consumed rs ! j) =
              task_result ext sched self exit_step options j (loader ! j)
                (fst (run_inputs ext sched self shared loader exit_step options ! j))
                (snd (run_inputs ext sched self shared loader exit_step options ! j))"
      using link by simp
  qed
  from bound pre len link con fin show ?thesis by (intro conjI)
qed

theorem parallel_run_bounded_and_ordered_witness:
  "\<exists>rs. 0 < num_workers example_proc
     \<and> process_parallel example_ext example_sched example_proc worker_shared example_loader
          None None = (rs, None)
     \<and> rs_outstanding rs = [0, 1, 2, 1, 2, 1, 0]
     \<and> list_all (\<lambda>m. m \<le> 2 * num_workers example_proc) (rs_outstanding rs)
     \<and> prefix (map Inr (rs_consumed rs)) (rs_submitted rs)
     \<and> length (rs_submitted rs) \<le> length example_loader
     \<and> list_all (\<lambda>j. rs_submitted rs ! j =
                        task_result example_ext example_sched example_proc None None j
                          (example_loader ! j)
                          (fst (run_inputs example_ext example_sched example_proc worker_shared
                                  example_loader None None ! j))
                          (snd (run_inputs example_ext example_sched example_proc worker_shared
                                  example_loader None None ! j)))
          [0..<length (rs_submitted rs)]
     \<and> list_all (\<lambda>j. Inr (rs_consumed rs ! j) =
                        task_result example_ext example_sched example_proc None None j
                          (example_loader ! j)
                          (fst (run_inputs example_ext example_sched example_proc worker_shared
                                  example_loader None None ! j))
                          (snd (run_inputs example_ext example_sched example_proc worker_shared
                                  example_loader None None ! j)))
          [0..<length (rs_consumed rs)]
     \<and> map Inr (rs_consumed rs) = rs_submitted rs
     \<and> length (rs_consumed rs) = length example_loader
     \<and> map fst (rs_consumed rs) = [[1, 2], [3], [4]]"
proof -
  from example_run obtain rs where
    run: "process_parallel example_ext example_sched example_proc worker_shared example_loader
            None None = (rs, None)"
    and out: "rs_outstanding rs = [0, 1, 2, 1, 2, 1, 0]"
    and con: "map fst (rs_consumed rs) = [[1, 2], [3], [4]]" by (elim exE conjE)
  have n: "0 < num_workers example_proc" by (simp add: example_proc_def)
  from parallel_run_bounded_and_ordered [OF n run] n run out con show ?thesis
    by (intro exI [of _ rs]) (simp add: list_all_iff)
qed



end
